theory Spec2Isabelle
  imports Main "HOL-Library.Char_ord" "HOL-Library.List_Lexorder"
begin

section \<open>Python values and errors\<close>

text \<open>
  The module \<^verbatim>\<open>datasets/utils/py_utils.py\<close> works on arbitrary Python objects. The
  nested data structures of \<^verbatim>\<open>map_nested\<close> are modelled by the datatype below: scalars
  (\<^verbatim>\<open>None\<close>, integers, text), lists, tuples, dictionaries (an association list in
  insertion order) and numpy arrays. An array is represented by the list of its items
  along the first axis: iterating it yields these items, slicing it is slicing that list
  and \<^verbatim>\<open>np.array(items)\<close> builds it back. Zero-dimensional arrays and numpy's type
  coercion are outside this representation.
\<close>

datatype pyval =
    PNone
  | PInt int
  | PStr string
  | PList "pyval list"
  | PTuple "pyval list"
  | PArray "pyval list"
  | PDict "(pyval \<times> pyval) list"

text \<open>
  Exceptions are values; the string is the message, without its formatted arguments (the
  message that \<^verbatim>\<open>NonMutableDict\<close> formats is given in full), and for a \<^verbatim>\<open>KeyError\<close> the
  missing key.
\<close>

datatype error =
    ValueError string
  | TypeError string
  | KeyError string
  | IndexError string
  | ImportError string
  | RuntimeError string
  | PicklingError string

text \<open>The classes that may occur in the \<^verbatim>\<open>types\<close> tuple of the nested mapper.\<close>

datatype pytype = TDict | TList | TTuple | TNdarray

fun isinstance_dict :: "pyval \<Rightarrow> bool" where
  "isinstance_dict (PDict kvs) = True"
| "isinstance_dict v = False"

fun isinstance_list :: "pyval \<Rightarrow> bool" where
  "isinstance_list (PList xs) = True"
| "isinstance_list v = False"

fun isinstance_tuple :: "pyval \<Rightarrow> bool" where
  "isinstance_tuple (PTuple xs) = True"
| "isinstance_tuple v = False"

text \<open>\<^verbatim>\<open>isinstance(v, types)\<close> for a tuple of classes.\<close>

fun isinstance :: "pyval \<Rightarrow> pytype list \<Rightarrow> bool" where
  "isinstance (PDict kvs) types = (TDict \<in> set types)"
| "isinstance (PList xs) types = (TList \<in> set types)"
| "isinstance (PTuple xs) types = (TTuple \<in> set types)"
| "isinstance (PArray xs) types = (TNdarray \<in> set types)"
| "isinstance v types = False"

text \<open>
  Iteration (\<^verbatim>\<open>for x in v\<close>): the items of a sequence, the keys of a dictionary, the
  characters of a text; \<^verbatim>\<open>None\<close> and integers are not iterable.
\<close>

fun py_iter :: "pyval \<Rightarrow> error + pyval list" where
  "py_iter (PList xs) = Inr xs"
| "py_iter (PTuple xs) = Inr xs"
| "py_iter (PArray xs) = Inr xs"
| "py_iter (PDict kvs) = Inr (map fst kvs)"
| "py_iter (PStr s) = Inr (map (\<lambda>c. PStr [c]) s)"
| "py_iter PNone = Inl (TypeError ''object is not iterable'')"
| "py_iter (PInt i) = Inl (TypeError ''object is not iterable'')"

text \<open>The items of a sequence, as the loops of the mapper read them.\<close>

fun seq_items :: "pyval \<Rightarrow> pyval list" where
  "seq_items (PList xs) = xs"
| "seq_items (PTuple xs) = xs"
| "seq_items (PArray xs) = xs"
| "seq_items v = []"

fun dict_items :: "pyval \<Rightarrow> (pyval \<times> pyval) list" where
  "dict_items (PDict kvs) = kvs"
| "dict_items v = []"

definition dict_keys :: "pyval \<Rightarrow> pyval list" where
  "dict_keys d = map fst (dict_items d)"

definition dict_values :: "pyval \<Rightarrow> pyval list" where
  "dict_values d = map snd (dict_items d)"

definition py_len :: "pyval \<Rightarrow> int" where
  "py_len v = int (length (seq_items v))"

text \<open>
  \<^verbatim>\<open>d[k] = v\<close> on a dictionary: an existing key keeps its position and takes the new
  value, a new key is appended.
\<close>

fun dict_setitem :: "('k \<times> 'v) list \<Rightarrow> 'k \<Rightarrow> 'v \<Rightarrow> ('k \<times> 'v) list" where
  "dict_setitem [] k v = [(k, v)]"
| "dict_setitem ((k', v') # kvs) k v =
     (if k' = k then (k', v) # kvs else (k', v') # dict_setitem kvs k v)"

text \<open>\<^verbatim>\<open>dict(pairs)\<close> and the dict comprehension: the pairs are stored one by one.\<close>

definition py_dict :: "('k \<times> 'v) list \<Rightarrow> ('k \<times> 'v) list" where
  "py_dict pairs = foldl (\<lambda>d (k, v). dict_setitem d k v) [] pairs"

text \<open>
  The slice \<^verbatim>\<open>xs[start:end]\<close> of a sequence of length \<open>n\<close>: a negative bound counts
  from the end, and both bounds are clipped to \<open>0..n\<close>.
\<close>

definition slice_bound :: "nat \<Rightarrow> int \<Rightarrow> nat" where
  "slice_bound n i = (if i < 0 then nat (max (int n + i) 0) else min (nat i) n)"

definition list_slice :: "'a list \<Rightarrow> int \<Rightarrow> int \<Rightarrow> 'a list" where
  "list_slice xs start end' =
     (let s = slice_bound (length xs) start; e = slice_bound (length xs) end'
      in take (e - s) (drop s xs))"

fun py_slice :: "pyval \<Rightarrow> int \<Rightarrow> int \<Rightarrow> pyval" where
  "py_slice (PList xs) start end' = PList (list_slice xs start end')"
| "py_slice (PTuple xs) start end' = PTuple (list_slice xs start end')"
| "py_slice (PArray xs) start end' = PArray (list_slice xs start end')"
| "py_slice v start end' = v"

text \<open>\<^verbatim>\<open>np.array(mapped)\<close>: the array with the given items.\<close>

definition np_array :: "pyval list \<Rightarrow> pyval" where
  "np_array mapped = PArray mapped"

section \<open>The nested mapper\<close>

text \<open>
  \<^verbatim>\<open>_single_map_nested(args)\<close> with \<^verbatim>\<open>args = (function, data_struct, types, rank,
  disable_tqdm, desc)\<close>. The last three only drive the progress bar and the logging
  verbosity, which are not modelled; \<^verbatim>\<open>logging.tqdm(iterable, ...)\<close> iterates as the
  iterable itself does.
\<close>

lemma dict_items_size:
  "(k, v) \<in> set (dict_items d) \<Longrightarrow> size v < size d"
proof (cases d)
  case (PDict kvs)
  assume "(k, v) \<in> set (dict_items d)"
  with PDict have mem: "(k, v) \<in> set kvs" by simp
  have "size v < Suc (size_list (size_prod size size) kvs)"
    using mem by (induction kvs) auto
  with PDict show ?thesis by simp
qed simp_all

lemma seq_items_size:
  "x \<in> set (seq_items d) \<Longrightarrow> size x < size d"
proof (cases d)
  case (PList xs)
  assume "x \<in> set (seq_items d)"
  with PList have "x \<in> set xs" by simp
  then have "size x < Suc (size_list size xs)" by (induction xs) auto
  with PList show ?thesis by simp
next
  case (PTuple xs)
  assume "x \<in> set (seq_items d)"
  with PTuple have "x \<in> set xs" by simp
  then have "size x < Suc (size_list size xs)" by (induction xs) auto
  with PTuple show ?thesis by simp
next
  case (PArray xs)
  assume "x \<in> set (seq_items d)"
  with PArray have "x \<in> set xs" by simp
  then have "size x < Suc (size_list size xs)" by (induction xs) auto
  with PArray show ?thesis by simp
qed simp_all

function single_map_nested :: "(pyval \<Rightarrow> pyval) \<times> pyval \<times> pytype list \<Rightarrow> pyval" where
  "single_map_nested (function, data_struct, types) =
     (if \<not> isinstance_dict data_struct \<and> \<not> isinstance data_struct types
      then function data_struct
      else if isinstance_dict data_struct
      then PDict (py_dict (map (\<lambda>(k, v). (k, single_map_nested (function, v, types)))
                               (dict_items data_struct)))
      else
        let mapped = map (\<lambda>v. single_map_nested (function, v, types)) (seq_items data_struct)
        in if isinstance_list data_struct then PList mapped
           else if isinstance_tuple data_struct then PTuple mapped
           else np_array mapped)"
  by pat_completeness auto
termination
  by (relation "measure (\<lambda>(function, data_struct, types). size data_struct)")
     (auto dest: dict_items_size seq_items_size)

text \<open>
  The \<^verbatim>\<open>types\<close> tuple that \<^verbatim>\<open>map_nested\<close> builds when the caller passes
  \<^verbatim>\<open>types=None\<close>.
\<close>

definition default_types :: "bool \<Rightarrow> bool \<Rightarrow> bool \<Rightarrow> bool \<Rightarrow> pytype list" where
  "default_types dict_only map_list map_tuple map_numpy =
     (if \<not> dict_only
      then (if map_list then [TList] else []) @
           (if map_tuple then [TTuple] else []) @
           (if map_numpy then [TNdarray] else [])
      else [])"

text \<open>
  The body of the loop \<^verbatim>\<open>for index in range(num_proc)\<close>, for an iterable of length
  \<open>n\<close>: the bounds \<^verbatim>\<open>(start, end)\<close> of the slice. Python's \<^verbatim>\<open>//\<close> and \<^verbatim>\<open>%\<close> on
  integers are \<open>div\<close> and \<open>mod\<close> on \<^typ>\<open>int\<close> (both round towards minus infinity).
\<close>

definition split_bounds :: "int \<Rightarrow> int \<Rightarrow> int \<Rightarrow> int \<times> int" where
  "split_bounds n num_proc index =
     (let div' = n div num_proc;
          mod' = n mod num_proc;
          start = div' * index + min index mod';
          end' = start + div' + (if index < mod' then 1 else 0)
      in (start, end'))"

text \<open>\<^verbatim>\<open>range(num_proc)\<close>: empty when \<^verbatim>\<open>num_proc\<close> is not positive.\<close>

definition py_range :: "int \<Rightarrow> int list" where
  "py_range n = map int [0..<nat n]"

text \<open>
  The list \<^verbatim>\<open>split_kwds\<close>, one argument tuple of \<^verbatim>\<open>_single_map_nested\<close> per
  worker (without the rank, the progress flag and the label).
\<close>

definition split_kwds ::
  "(pyval \<Rightarrow> pyval) \<Rightarrow> pyval \<Rightarrow> pytype list \<Rightarrow> int
     \<Rightarrow> ((pyval \<Rightarrow> pyval) \<times> pyval \<times> pytype list) list" where
  "split_kwds function iterable types num_proc =
     map (\<lambda>index.
            case split_bounds (py_len iterable) num_proc index of
              (start, end') \<Rightarrow> (function, py_slice iterable start end', types))
         (py_range num_proc)"

text \<open>\<^verbatim>\<open>[obj for proc_res in mapped for obj in proc_res]\<close>\<close>

fun unpack :: "pyval list \<Rightarrow> error + pyval list" where
  "unpack [] = Inr []"
| "unpack (proc_res # rest) =
     (case py_iter proc_res of
        Inl e \<Rightarrow> Inl e
      | Inr objs \<Rightarrow> (case unpack rest of Inl e \<Rightarrow> Inl e | Inr more \<Rightarrow> Inr (objs @ more)))"

text \<open>The end of \<^verbatim>\<open>map_nested\<close>: the container of the input's kind around \<^verbatim>\<open>mapped\<close>.\<close>

definition rebuild :: "pyval \<Rightarrow> pyval list \<Rightarrow> pyval" where
  "rebuild data_struct mapped =
     (if isinstance_dict data_struct then PDict (py_dict (zip (dict_keys data_struct) mapped))
      else if isinstance_list data_struct then PList mapped
      else if isinstance_tuple data_struct then PTuple mapped
      else np_array mapped)"

text \<open>
  \<^verbatim>\<open>map_nested(function, data_struct, dict_only, map_list, map_tuple, map_numpy, num_proc,
  types)\<close>. \<^verbatim>\<open>pool.map\<close> returns the workers' results in the order of \<^verbatim>\<open>split_kwds\<close>;
  with a function that has no effects it is \<open>map\<close>.
\<close>

definition map_nested ::
  "(pyval \<Rightarrow> pyval) \<Rightarrow> pyval \<Rightarrow> bool \<Rightarrow> bool \<Rightarrow> bool \<Rightarrow> bool \<Rightarrow> int option
     \<Rightarrow> pytype list option \<Rightarrow> error + pyval" where
  "map_nested function data_struct dict_only map_list map_tuple map_numpy num_proc types =
     (let types = (case types of
                     None \<Rightarrow> default_types dict_only map_list map_tuple map_numpy
                   | Some ts \<Rightarrow> ts)
      in if \<not> isinstance_dict data_struct \<and> \<not> isinstance data_struct types
         then Inr (function data_struct)
         else
           let iterable = (if isinstance_dict data_struct
                           then PList (dict_values data_struct) else data_struct);
               num_proc = (case num_proc of None \<Rightarrow> 1 | Some n \<Rightarrow> n)
           in if num_proc \<le> 1 \<or> py_len iterable \<le> num_proc
              then Inr (rebuild data_struct
                     (map (\<lambda>obj. single_map_nested (function, obj, types)) (seq_items iterable)))
              else
                let kwds = split_kwds function iterable types num_proc
                in if py_len iterable \<noteq> sum_list (map (\<lambda>i. py_len (fst (snd i))) kwds)
                   then Inl (ValueError ''Error dividing inputs iterable among processes.'')
                   else
                     (case unpack (map single_map_nested kwds) of
                        Inl e \<Rightarrow> Inl e
                      | Inr mapped \<Rightarrow> Inr (rebuild data_struct mapped)))"

subsection \<open>The contiguous split\<close>

text \<open>
  The first bound of the slice with a given index. The second bound of a slice is the
  first bound of the next one, which is what makes the slices contiguous.
\<close>

definition split_start :: "int \<Rightarrow> int \<Rightarrow> int \<Rightarrow> int" where
  "split_start n w i = (n div w) * i + min i (n mod w)"

lemma split_bounds_start: "fst (split_bounds n w i) = split_start n w i"
  by (simp add: split_bounds_def split_start_def Let_def)

lemma split_bounds_end: "snd (split_bounds n w i) = split_start n w (i + 1)"
  by (simp add: split_bounds_def split_start_def Let_def algebra_simps min_def)

lemma split_start_0: "0 < w \<Longrightarrow> split_start n w 0 = 0"
  by (simp add: split_start_def)

lemma split_start_last: "0 < w \<Longrightarrow> split_start n w w = n"
proof -
  assume w: "0 < w"
  then have "n mod w < w" by simp
  then have "min w (n mod w) = n mod w" by simp
  then show ?thesis by (simp add: split_start_def)
qed

lemma split_start_mono:
  assumes "0 \<le> n" "0 < w" "i \<le> j"
  shows "split_start n w i \<le> split_start n w j"
proof -
  have "0 \<le> n div w" using assms by (simp add: pos_imp_zdiv_nonneg_iff)
  then have "(n div w) * i \<le> (n div w) * j" using assms by (simp add: mult_left_mono)
  moreover have "min i (n mod w) \<le> min j (n mod w)" using assms by simp
  ultimately show ?thesis by (simp add: split_start_def)
qed

lemma split_start_nonneg:
  "0 \<le> n \<Longrightarrow> 0 < w \<Longrightarrow> 0 \<le> i \<Longrightarrow> 0 \<le> split_start n w i"
  using split_start_mono [of n w 0 i] by (simp add: split_start_0)

lemma split_start_le:
  "0 \<le> n \<Longrightarrow> 0 < w \<Longrightarrow> i \<le> w \<Longrightarrow> split_start n w i \<le> n"
  using split_start_mono [of n w i w] by (simp add: split_start_last)

lemma list_slice_nonneg:
  assumes "0 \<le> s" "s \<le> e" "e \<le> int (length xs)"
  shows "list_slice xs s e = take (nat e - nat s) (drop (nat s) xs)"
proof -
  have "nat e \<le> length xs" "nat s \<le> length xs" using assms by linarith+
  then show ?thesis using assms by (simp add: list_slice_def slice_bound_def Let_def min_def)
qed

lemma concat_slices:
  fixes b :: "nat \<Rightarrow> nat"
  assumes "b 0 = 0" "\<And>i. i < k \<Longrightarrow> b i \<le> b (Suc i)"
  shows "concat (map (\<lambda>i. take (b (Suc i) - b i) (drop (b i) xs)) [0..<k]) = take (b k) xs"
  using assms
proof (induction k)
  case 0
  then show ?case by simp
next
  case (Suc k)
  have "take (b (Suc k)) xs = take (b k + (b (Suc k) - b k)) xs"
    using Suc.prems(2) [of k] by simp
  also have "\<dots> = take (b k) xs @ take (b (Suc k) - b k) (drop (b k) xs)"
    by (rule take_add)
  finally show ?case using Suc by simp
qed

lemma seq_items_py_slice: "seq_items (py_slice v s e) = list_slice (seq_items v) s e"
  by (cases v) (simp_all add: list_slice_def)

definition chunk_of :: "pyval \<Rightarrow> int \<Rightarrow> int \<Rightarrow> pyval" where
  "chunk_of iterable w i =
     py_slice iterable (split_start (py_len iterable) w i) (split_start (py_len iterable) w (i + 1))"

lemma split_kwds_chunks:
  "map (\<lambda>k. fst (snd k)) (split_kwds function iterable types w) =
   map (\<lambda>i. chunk_of iterable w (int i)) [0..<nat w]"
proof -
  have "split_bounds n w i = (split_start n w i, split_start n w (i + 1))" for n i
    using split_bounds_start [of n w i] split_bounds_end [of n w i]
    by (metis prod.collapse)
  then show ?thesis
    by (simp add: split_kwds_def py_range_def chunk_of_def comp_def)
qed

definition cut :: "pyval \<Rightarrow> int \<Rightarrow> nat \<Rightarrow> nat" where
  "cut iterable w i = nat (split_start (py_len iterable) w (int i))"

lemma cut_mono: "0 < w \<Longrightarrow> cut iterable w i \<le> cut iterable w (Suc i)"
  unfolding cut_def
  by (rule nat_mono, rule split_start_mono) (simp_all add: py_len_def)

lemma cut_0: "0 < w \<Longrightarrow> cut iterable w 0 = 0"
  by (simp add: cut_def split_start_0)

lemma cut_last: "0 < w \<Longrightarrow> cut iterable w (nat w) = length (seq_items iterable)"
  by (simp add: cut_def split_start_last py_len_def)

lemma chunk_of_items:
  assumes "0 < w" "i < nat w"
  shows "seq_items (chunk_of iterable w (int i)) =
         take (cut iterable w (Suc i) - cut iterable w i)
              (drop (cut iterable w i) (seq_items iterable))"
proof -
  let ?n = "py_len iterable"
  have n: "0 \<le> ?n" by (simp add: py_len_def)
  have a: "0 \<le> split_start ?n w (int i)"
    using n assms by (intro split_start_nonneg) simp_all
  have b: "split_start ?n w (int i) \<le> split_start ?n w (int i + 1)"
    using n assms by (intro split_start_mono) simp_all
  have c: "split_start ?n w (int i + 1) \<le> int (length (seq_items iterable))"
    using split_start_le [of ?n w "int i + 1"] n assms by (simp add: py_len_def)
  show ?thesis
    using list_slice_nonneg [OF a b c]
    by (simp add: chunk_of_def seq_items_py_slice cut_def add.commute)
qed

lemma chunks_concat:
  assumes "0 < w"
  shows "concat (map (\<lambda>k. seq_items (fst (snd k))) (split_kwds function iterable types w)) =
         seq_items iterable"
proof -
  have "map (\<lambda>k. seq_items (fst (snd k))) (split_kwds function iterable types w) =
        map seq_items (map (\<lambda>k. fst (snd k)) (split_kwds function iterable types w))"
    by (simp add: comp_def)
  also have "\<dots> = map (\<lambda>i. seq_items (chunk_of iterable w (int i))) [0..<nat w]"
    by (simp add: split_kwds_chunks comp_def)
  also have "\<dots> = map (\<lambda>i. take (cut iterable w (Suc i) - cut iterable w i)
                              (drop (cut iterable w i) (seq_items iterable))) [0..<nat w]"
    using assms by (intro map_cong refl) (simp add: chunk_of_items)
  finally have "concat (map (\<lambda>k. seq_items (fst (snd k))) (split_kwds function iterable types w)) =
        take (cut iterable w (nat w)) (seq_items iterable)"
    using concat_slices [of "cut iterable w" "nat w" "seq_items iterable"] assms
    by (simp add: cut_0 cut_mono)
  then show ?thesis using assms by (simp add: cut_last)
qed

lemma int_sum_list_map: "int (sum_list (map f xs)) = sum_list (map (\<lambda>x. int (f x)) xs)"
  by (induction xs) simp_all

lemma chunks_total:
  assumes "0 < w"
  shows "sum_list (map (\<lambda>i. py_len (fst (snd i))) (split_kwds function iterable types w)) =
         py_len iterable"
proof -
  have "length (concat (map (\<lambda>k. seq_items (fst (snd k))) (split_kwds function iterable types w)))
        = length (seq_items iterable)"
    using chunks_concat [OF assms] by simp
  then have "sum_list (map (\<lambda>k. length (seq_items (fst (snd k)))) (split_kwds function iterable types w))
        = length (seq_items iterable)"
    by (simp add: length_concat comp_def)
  then have "int (sum_list (map (\<lambda>k. length (seq_items (fst (snd k)))) (split_kwds function iterable types w)))
        = py_len iterable"
    by (simp add: py_len_def)
  then show ?thesis
    by (simp add: py_len_def int_sum_list_map)
qed

lemma chunk_of_len:
  assumes "0 < w" "i < nat w"
  shows "py_len (chunk_of iterable w (int i)) =
         py_len iterable div w + (if int i < py_len iterable mod w then 1 else 0)"
proof -
  let ?n = "py_len iterable"
  have n: "0 \<le> ?n" by (simp add: py_len_def)
  have "split_start ?n w (int (Suc i)) \<le> ?n"
    using n assms by (intro split_start_le) simp_all
  then have le: "cut iterable w (Suc i) \<le> length (seq_items iterable)"
    unfolding cut_def py_len_def by linarith
  have "length (seq_items (chunk_of iterable w (int i))) =
        cut iterable w (Suc i) - cut iterable w i"
    using le cut_mono [OF assms(1), of iterable i] by (simp add: chunk_of_items [OF assms])
  moreover have "0 \<le> split_start ?n w (int i)"
    using n assms by (intro split_start_nonneg) simp_all
  moreover have "split_start ?n w (int i) \<le> split_start ?n w (int (Suc i))"
    using n assms by (intro split_start_mono) simp_all
  ultimately have "py_len (chunk_of iterable w (int i)) =
        split_start ?n w (int (Suc i)) - split_start ?n w (int i)"
    by (simp add: py_len_def cut_def)
  also have "\<dots> = ?n div w + (if int i < ?n mod w then 1 else 0)"
    by (simp add: split_start_def algebra_simps min_def)
  finally show ?thesis .
qed

lemma chunk_of_explicit:
  "chunk_of iterable w i =
     py_slice iterable
       (py_len iterable div w * i + min i (py_len iterable mod w))
       (py_len iterable div w * i + min i (py_len iterable mod w) + py_len iterable div w
          + (if i < py_len iterable mod w then 1 else 0))"
proof -
  have "split_start n w (i + 1) = split_start n w i + n div w + (if i < n mod w then 1 else 0)" for n
    by (simp add: split_start_def algebra_simps min_def)
  then show ?thesis by (simp add: chunk_of_def split_start_def)
qed

text \<open>
  Claim C3. On the parallel path (more than one worker, more items than workers) the
  split has exactly \<open>w\<close> slices; the slice with index \<open>i\<close> is
  \<^verbatim>\<open>iterable[start:end]\<close> with \<open>start = n div w * i + min i (n mod w)\<close> and
  \<open>end = start + n div w + (1 if i < n mod w else 0)\<close>; it holds \<open>n div w\<close> items and
  one more when \<open>i < n mod w\<close>; the slices concatenated in the order of their indices
  are the items of the input; their lengths sum to \<open>n\<close> and any two lengths differ by
  at most one.
\<close>

theorem split_kwds_contiguous_balanced:
  assumes "1 < w" and "w < py_len iterable"
  shows "let n = py_len iterable;
             chunks = map (\<lambda>k. fst (snd k)) (split_kwds function iterable types w);
             start = (\<lambda>i. n div w * i + min i (n mod w));
             extra = (\<lambda>i. if i < n mod w then 1 else 0)
         in length chunks = nat w
          \<and> (\<forall>i < nat w. chunks ! i = py_slice iterable (start (int i))
                                        (start (int i) + n div w + extra (int i)))
          \<and> (\<forall>i < nat w. py_len (chunks ! i) = n div w + extra (int i))
          \<and> concat (map seq_items chunks) = seq_items iterable
          \<and> sum_list (map py_len chunks) = n
          \<and> (\<forall>i < nat w. \<forall>j < nat w. \<bar>py_len (chunks ! i) - py_len (chunks ! j)\<bar> \<le> 1)"
proof -
  let ?n = "py_len iterable"
  let ?chunks = "map (\<lambda>k. fst (snd k)) (split_kwds function iterable types w)"
  have w: "0 < w" using assms by simp
  have chunks: "?chunks = map (\<lambda>i. chunk_of iterable w (int i)) [0..<nat w]"
    by (rule split_kwds_chunks)
  have len: "length ?chunks = nat w" by (simp add: chunks)
  have nth: "?chunks ! i = chunk_of iterable w (int i)" if "i < nat w" for i
    using that by (simp add: chunks)
  have sl: "?chunks ! i = py_slice iterable (?n div w * int i + min (int i) (?n mod w))
              (?n div w * int i + min (int i) (?n mod w) + ?n div w
                 + (if int i < ?n mod w then 1 else 0))" if "i < nat w" for i
    using nth [OF that] chunk_of_explicit [of iterable w "int i"] by simp
  have sz: "py_len (?chunks ! i) = ?n div w + (if int i < ?n mod w then 1 else 0)"
    if "i < nat w" for i
    using nth [OF that] chunk_of_len [OF w that, of iterable] by simp
  have cat: "concat (map seq_items ?chunks) = seq_items iterable"
    using chunks_concat [OF w, of "function" iterable "types"] by (simp add: comp_def)
  have tot: "sum_list (map py_len ?chunks) = ?n"
    using chunks_total [OF w, of "function" iterable "types"] by (simp add: comp_def)
  have diff: "\<bar>py_len (?chunks ! i) - py_len (?chunks ! j)\<bar> \<le> 1"
    if "i < nat w" "j < nat w" for i j
    using sz [OF that(1)] sz [OF that(2)] by simp
  show ?thesis
    unfolding Let_def using len sl sz cat tot diff by blast
qed

theorem split_kwds_contiguous_balanced_witness:
  "(1::int) < 2 \<and> 2 < py_len (PList [PInt 10, PInt 20, PInt 30, PInt 40, PInt 50])
   \<and> map (\<lambda>k. fst (snd k)) (split_kwds id (PList [PInt 10, PInt 20, PInt 30, PInt 40, PInt 50]) [] 2)
       = [PList [PInt 10, PInt 20, PInt 30], PList [PInt 40, PInt 50]]
   \<and> sum_list (map py_len (map (\<lambda>k. fst (snd k))
         (split_kwds id (PList [PInt 10, PInt 20, PInt 30, PInt 40, PInt 50]) [] 2))) = 5"
proof -
  let ?it = "PList [PInt 10, PInt 20, PInt 30, PInt 40, PInt 50]"
  have h1: "(1::int) < 2" by simp
  have h2: "2 < py_len ?it" by (simp add: py_len_def)
  have ev: "map (\<lambda>k. fst (snd k)) (split_kwds id ?it [] 2)
       = [PList [PInt 10, PInt 20, PInt 30], PList [PInt 40, PInt 50]]"
    by code_simp
  from split_kwds_contiguous_balanced [OF h1 h2, of id "[]"]
  have "sum_list (map py_len (map (\<lambda>k. fst (snd k)) (split_kwds id ?it [] 2))) = py_len ?it"
    unfolding Let_def by blast
  then show ?thesis using h1 h2 ev by (simp add: py_len_def)
qed

text \<open>
  Claim C4. The check before dispatch never fails: on the parallel path the lengths of
  the slices sum to the length of the iterable, so \<^verbatim>\<open>map_nested\<close> never raises the
  \<^verbatim>\<open>ValueError\<close> for an iterable that was divided wrongly, whatever its arguments.
\<close>

theorem map_nested_accounting_check:
  "(1 < w \<and> w < py_len iterable \<longrightarrow>
      py_len iterable = sum_list (map (\<lambda>i. py_len (fst (snd i))) (split_kwds function iterable types w)))
   \<and> map_nested function data_struct dict_only map_list map_tuple map_numpy num_proc types'
       \<noteq> Inl (ValueError ''Error dividing inputs iterable among processes.'')"
proof
  show "1 < w \<and> w < py_len iterable \<longrightarrow>
      py_len iterable = sum_list (map (\<lambda>i. py_len (fst (snd i))) (split_kwds function iterable types w))"
    using chunks_total [of w "function" iterable "types"] by simp
next
  have unp: "unpack xs \<noteq> Inl (ValueError m)" for xs m
  proof (induction xs)
    case (Cons x xs)
    then show ?case by (cases x) (auto split: sum.splits)
  qed simp
  have tot: "\<not> n \<le> 1 \<Longrightarrow>
     py_len it = sum_list (map (\<lambda>i. py_len (fst (snd i))) (split_kwds function it ts n))" for n it ts
    using chunks_total [of n "function" it ts] by simp
  show "map_nested function data_struct dict_only map_list map_tuple map_numpy num_proc types'
       \<noteq> Inl (ValueError ''Error dividing inputs iterable among processes.'')"
    unfolding map_nested_def Let_def
    using unp tot by (auto split: sum.splits option.splits)
qed

theorem map_nested_accounting_check_witness:
  "(1::int) < 2 \<and> 2 < py_len (PList [PInt 10, PInt 20, PInt 30])
   \<and> py_len (PList [PInt 10, PInt 20, PInt 30])
       = sum_list (map (\<lambda>i. py_len (fst (snd i))) (split_kwds id (PList [PInt 10, PInt 20, PInt 30]) [TList] 2))
   \<and> map_nested id (PList [PInt 10, PInt 20, PInt 30]) False True False False (Some 2) None
       = Inr (PList [PInt 10, PInt 20, PInt 30])"
proof -
  have h: "(1::int) < 2 \<and> 2 < py_len (PList [PInt 10, PInt 20, PInt 30])"
    by (simp add: py_len_def)
  have ev: "map_nested id (PList [PInt 10, PInt 20, PInt 30]) False True False False (Some 2) None
       = Inr (PList [PInt 10, PInt 20, PInt 30])"
    by code_simp
  show ?thesis
    using h ev map_nested_accounting_check [of 2 "PList [PInt 10, PInt 20, PInt 30]" id "[TList]"]
    by blast
qed

subsection \<open>Sequential and chunked traversal\<close>

text \<open>
  The defining equation of \<^verbatim>\<open>_single_map_nested\<close> is taken out of the simplifier's
  rules; the equations per kind of value below replace it.
\<close>

declare single_map_nested.simps [simp del]

text \<open>
  A value is well formed when the keys of each of its dictionaries are distinct, as the
  keys of a Python dictionary are.
\<close>

fun wf_pyval :: "pyval \<Rightarrow> bool" where
  "wf_pyval (PDict kvs) = (distinct (map fst kvs) \<and> list_all wf_pyval (map snd kvs))"
| "wf_pyval (PList xs) = list_all wf_pyval xs"
| "wf_pyval (PTuple xs) = list_all wf_pyval xs"
| "wf_pyval (PArray xs) = list_all wf_pyval xs"
| "wf_pyval v = True"

text \<open>Lists, tuples and arrays: the values \<^verbatim>\<open>map_nested\<close> slices.\<close>

fun is_seq :: "pyval \<Rightarrow> bool" where
  "is_seq (PList xs) = True"
| "is_seq (PTuple xs) = True"
| "is_seq (PArray xs) = True"
| "is_seq v = False"

lemma smn_dict:
  "single_map_nested (f, PDict kvs, ts) =
     PDict (py_dict (map (\<lambda>(k, v). (k, single_map_nested (f, v, ts))) kvs))"
  by (subst single_map_nested.simps) simp

lemma smn_list:
  "single_map_nested (f, PList xs, ts) =
     (if TList \<in> set ts then PList (map (\<lambda>v. single_map_nested (f, v, ts)) xs) else f (PList xs))"
  by (subst single_map_nested.simps) simp

lemma smn_tuple:
  "single_map_nested (f, PTuple xs, ts) =
     (if TTuple \<in> set ts then PTuple (map (\<lambda>v. single_map_nested (f, v, ts)) xs) else f (PTuple xs))"
  by (subst single_map_nested.simps) simp

lemma smn_array:
  "single_map_nested (f, PArray xs, ts) =
     (if TNdarray \<in> set ts then PArray (map (\<lambda>v. single_map_nested (f, v, ts)) xs) else f (PArray xs))"
  by (subst single_map_nested.simps) (simp add: np_array_def)

lemma smn_scalar:
  "single_map_nested (f, PNone, ts) = f PNone"
  "single_map_nested (f, PInt i, ts) = f (PInt i)"
  "single_map_nested (f, PStr s, ts) = f (PStr s)"
  by (subst single_map_nested.simps, simp)+

lemmas smn_simps = smn_dict smn_list smn_tuple smn_array smn_scalar

lemma dict_setitem_fresh:
  "k \<notin> fst ` set d \<Longrightarrow> dict_setitem d k v = d @ [(k, v)]"
  by (induction d) auto

lemma foldl_setitem_distinct:
  "distinct (map fst (d @ pairs)) \<Longrightarrow>
   foldl (\<lambda>d (k, v). dict_setitem d k v) d pairs = d @ pairs"
proof (induction pairs arbitrary: d)
  case Nil
  then show ?case by simp
next
  case (Cons p pairs)
  obtain k v where p: "p = (k, v)" by (cases p)
  have fresh: "k \<notin> fst ` set d" using Cons.prems p by auto
  have "distinct (map fst ((d @ [(k, v)]) @ pairs))" using Cons.prems p by simp
  then have "foldl (\<lambda>d (k, v). dict_setitem d k v) (d @ [(k, v)]) pairs = (d @ [(k, v)]) @ pairs"
    by (rule Cons.IH)
  then show ?case using fresh p by (simp add: dict_setitem_fresh)
qed

lemma py_dict_distinct: "distinct (map fst pairs) \<Longrightarrow> py_dict pairs = pairs"
  using foldl_setitem_distinct [of "[]" pairs] by (simp add: py_dict_def)

lemma smn_id:
  assumes f: "\<And>x. f x = x"
  shows "wf_pyval v \<Longrightarrow> single_map_nested (f, v, ts) = v"
proof (induction v)
  case (PDict kvs)
  have "map (\<lambda>(k, v). (k, single_map_nested (f, v, ts))) kvs = kvs"
  proof (rule map_idI)
    fix p assume p: "p \<in> set kvs"
    obtain k v where kv: "p = (k, v)" by (cases p)
    have "wf_pyval v" using PDict.prems p kv by (auto simp: list_all_iff)
    moreover have "v \<in> Basic_BNFs.snds p" using kv by simp
    ultimately have "single_map_nested (f, v, ts) = v" using PDict.IH(2) p by blast
    then show "(case p of (k, v) \<Rightarrow> (k, single_map_nested (f, v, ts))) = p" using kv by simp
  qed
  then show ?case using PDict.prems by (simp add: smn_dict py_dict_distinct)
qed (simp_all add: smn_simps list_all_iff map_idI f)


lemma smn_leaf:
  "\<not> isinstance_dict v \<Longrightarrow> \<not> isinstance v ts \<Longrightarrow> single_map_nested (f, v, ts) = f v"
  by (subst single_map_nested.simps) simp

lemma smn_seq:
  "is_seq v \<Longrightarrow> isinstance v ts \<Longrightarrow>
   py_iter (single_map_nested (f, v, ts)) =
     Inr (map (\<lambda>x. single_map_nested (f, x, ts)) (seq_items v))"
  by (cases v) (simp_all add: smn_simps)

lemma smn_agree:
  assumes fg: "\<And>x. \<not> isinstance_dict x \<Longrightarrow> \<not> isinstance x ts \<Longrightarrow> f x = g x"
  shows "single_map_nested (f, v, ts) = single_map_nested (g, v, ts)"
proof (induction v)
  case (PDict kvs)
  have "map (\<lambda>(k, v). (k, single_map_nested (f, v, ts))) kvs =
        map (\<lambda>(k, v). (k, single_map_nested (g, v, ts))) kvs"
  proof (rule map_cong [OF refl])
    fix p assume p: "p \<in> set kvs"
    obtain k v where kv: "p = (k, v)" by (cases p)
    have "v \<in> Basic_BNFs.snds p" using kv by simp
    then have "single_map_nested (f, v, ts) = single_map_nested (g, v, ts)"
      using PDict.IH(2) p by blast
    then show "(case p of (k, v) \<Rightarrow> (k, single_map_nested (f, v, ts))) =
               (case p of (k, v) \<Rightarrow> (k, single_map_nested (g, v, ts)))"
      using kv by simp
  qed
  then show ?case by (simp only: smn_dict)
qed (simp_all add: smn_simps fg cong: map_cong)

lemma split_kwds_eq:
  "split_kwds f iterable ts w = map (\<lambda>i. (f, chunk_of iterable w (int i), ts)) [0..<nat w]"
proof -
  have "split_bounds n w i = (split_start n w i, split_start n w (i + 1))" for n i
    using split_bounds_start [of n w i] split_bounds_end [of n w i]
    by (metis prod.collapse)
  then show ?thesis
    by (simp add: split_kwds_def py_range_def chunk_of_def comp_def)
qed

lemma is_seq_py_slice: "is_seq (py_slice v s e) = is_seq v"
  by (cases v) simp_all

lemma isinstance_py_slice: "isinstance (py_slice v s e) ts = isinstance v ts"
  by (cases v) simp_all

lemma isinstance_dict_py_slice: "isinstance_dict (py_slice v s e) = isinstance_dict v"
  by (cases v) simp_all

lemma py_iter_seq: "is_seq v \<Longrightarrow> py_iter v = Inr (seq_items v)"
  by (cases v) simp_all

lemma unpack_map:
  "(\<And>i. i \<in> set js \<Longrightarrow> py_iter (c i) = Inr (h i)) \<Longrightarrow>
   unpack (map c js) = Inr (concat (map h js))"
  by (induction js) simp_all

lemma chunks_concat_upt:
  assumes "0 < w"
  shows "concat (map (\<lambda>i. seq_items (chunk_of iterable w (int i))) [0..<nat w]) = seq_items iterable"
  using chunks_concat [OF assms, of id iterable "[]"] by (simp add: split_kwds_eq comp_def)

text \<open>The chunked path when the workers traverse their chunks.\<close>

lemma unpack_traversed:
  assumes w: "0 < w" and seq: "is_seq iterable" and inst: "isinstance iterable ts"
  shows "unpack (map single_map_nested (split_kwds f iterable ts w)) =
         Inr (map (\<lambda>x. single_map_nested (f, x, ts)) (seq_items iterable))"
proof -
  let ?g = "\<lambda>x. single_map_nested (f, x, ts)"
  let ?c = "\<lambda>i. single_map_nested (f, chunk_of iterable w (int i), ts)"
  let ?h = "\<lambda>i. map ?g (seq_items (chunk_of iterable w (int i)))"
  have "py_iter (?c i) = Inr (?h i)" for i
    using seq inst by (intro smn_seq) (simp_all add: chunk_of_def is_seq_py_slice isinstance_py_slice)
  then have "unpack (map ?c [0..<nat w]) = Inr (concat (map ?h [0..<nat w]))"
    by (intro unpack_map) simp
  also have "concat (map ?h [0..<nat w]) =
             map ?g (concat (map (\<lambda>i. seq_items (chunk_of iterable w (int i))) [0..<nat w]))"
    by (simp add: map_concat comp_def)
  also have "\<dots> = map ?g (seq_items iterable)"
    by (simp add: chunks_concat_upt [OF w])
  finally show ?thesis by (simp add: split_kwds_eq comp_def)
qed

text \<open>The chunked path when a chunk is not traversable: the function gets the chunk.\<close>

lemma unpack_not_traversed:
  assumes w: "0 < w" and seq: "is_seq iterable" and inst: "\<not> isinstance iterable ts"
  shows "map single_map_nested (split_kwds f iterable ts w) =
         map (\<lambda>i. f (chunk_of iterable w (int i))) [0..<nat w]"
proof -
  have "single_map_nested (f, chunk_of iterable w (int i), ts) = f (chunk_of iterable w (int i))" for i
    using seq inst
    by (intro smn_leaf)
       (cases iterable; simp add: chunk_of_def)+
  then show ?thesis by (simp add: split_kwds_eq comp_def)
qed

lemma unpack_identity:
  assumes w: "0 < w" and seq: "is_seq iterable" and f: "\<And>x. f x = x"
    and wf: "wf_pyval iterable"
  shows "unpack (map single_map_nested (split_kwds f iterable ts w)) =
         Inr (map (\<lambda>x. single_map_nested (f, x, ts)) (seq_items iterable))"
proof (cases "isinstance iterable ts")
  case True
  then show ?thesis by (rule unpack_traversed [OF w seq])
next
  case False
  have items: "map (\<lambda>x. single_map_nested (f, x, ts)) (seq_items iterable) = seq_items iterable"
    using wf seq by (cases iterable) (simp_all add: list_all_iff smn_id [OF f] map_idI)
  have "py_iter (chunk_of iterable w (int i)) = Inr (seq_items (chunk_of iterable w (int i)))" for i
    using seq by (intro py_iter_seq) (simp add: chunk_of_def is_seq_py_slice)
  then have "unpack (map (\<lambda>i. chunk_of iterable w (int i)) [0..<nat w]) =
        Inr (concat (map (\<lambda>i. seq_items (chunk_of iterable w (int i))) [0..<nat w]))"
    by (intro unpack_map) simp
  then show ?thesis
    using unpack_not_traversed [OF w seq False, of f]
    by (simp add: f items chunks_concat_upt [OF w])
qed

text \<open>\<^verbatim>\<open>map_nested\<close> without the check that never fails.\<close>

lemma map_nested_checked:
  "map_nested f v dict_only map_list map_tuple map_numpy num_proc tys =
     (let ts = (case tys of None \<Rightarrow> default_types dict_only map_list map_tuple map_numpy
                | Some ts \<Rightarrow> ts);
          iterable = (if isinstance_dict v then PList (dict_values v) else v);
          w = (case num_proc of None \<Rightarrow> 1 | Some n \<Rightarrow> n)
      in if \<not> isinstance_dict v \<and> \<not> isinstance v ts then Inr (f v)
         else if w \<le> 1 \<or> py_len iterable \<le> w
         then Inr (rebuild v (map (\<lambda>obj. single_map_nested (f, obj, ts)) (seq_items iterable)))
         else (case unpack (map single_map_nested (split_kwds f iterable ts w)) of
                 Inl e \<Rightarrow> Inl e
               | Inr mapped \<Rightarrow> Inr (rebuild v mapped)))"
proof -
  have "\<not> n \<le> 1 \<Longrightarrow>
     py_len it = sum_list (map (\<lambda>i. py_len (fst (snd i))) (split_kwds f it ts n))" for n it ts
    using chunks_total [of n f it ts] by simp
  then show ?thesis
    unfolding map_nested_def Let_def by (simp split: option.splits)
qed

lemma iterable_is_seq:
  "isinstance_dict v \<or> isinstance v ts \<Longrightarrow>
   is_seq (if isinstance_dict v then PList (dict_values v) else v)"
  by (cases v) simp_all

lemma rebuild_identity:
  assumes "wf_pyval v" "isinstance_dict v \<or> isinstance v ts" and f: "\<And>x. f x = x"
  shows "rebuild v (map (\<lambda>obj. single_map_nested (f, obj, ts))
           (seq_items (if isinstance_dict v then PList (dict_values v) else v))) = v"
proof (cases v)
  case (PDict kvs)
  have m: "map (\<lambda>obj. single_map_nested (f, obj, ts)) (map snd kvs) = map snd kvs"
    using assms(1) PDict by (intro map_idI) (auto simp: list_all_iff smn_id [OF f])
  have it: "seq_items (if isinstance_dict v then PList (dict_values v) else v) = map snd kvs"
    using PDict by (simp add: dict_values_def)
  have "rebuild v (map snd kvs) = v"
    using assms(1) PDict
    by (simp add: rebuild_def dict_keys_def zip_map_fst_snd py_dict_distinct)
  then show ?thesis by (simp only: it m)
next
  case (PList xs)
  then show ?thesis using assms(1)
    by (simp add: rebuild_def list_all_iff smn_id [OF f] map_idI)
next
  case (PTuple xs)
  then show ?thesis using assms(1)
    by (simp add: rebuild_def list_all_iff smn_id [OF f] map_idI)
next
  case (PArray xs)
  then show ?thesis using assms(1)
    by (simp add: rebuild_def np_array_def list_all_iff smn_id [OF f] map_idI)
qed (use assms(2) in simp_all)

lemma wf_iterable:
  "wf_pyval v \<Longrightarrow> wf_pyval (if isinstance_dict v then PList (dict_values v) else v)"
  by (cases v) (simp_all add: dict_values_def)

text \<open>
  With a function that returns its argument, \<^verbatim>\<open>map_nested\<close> returns a well-formed
  input unchanged, for every setting of the options and every worker count.
\<close>

lemma map_nested_identity_result:
  assumes wf: "wf_pyval v" and f: "\<And>x. f x = x"
  shows "map_nested f v dict_only map_list map_tuple map_numpy num_proc tys = Inr v"
proof -
  define ts where "ts = (case tys of None \<Rightarrow> default_types dict_only map_list map_tuple map_numpy
                | Some ts \<Rightarrow> ts)"
  define iterable where "iterable = (if isinstance_dict v then PList (dict_values v) else v)"
  define w where "w = (case num_proc of None \<Rightarrow> 1 | Some n \<Rightarrow> n)"
  show ?thesis
  proof (cases "\<not> isinstance_dict v \<and> \<not> isinstance v ts")
    case True
    then show ?thesis
      unfolding map_nested_checked Let_def ts_def [symmetric] by (simp add: f)
  next
    case False
    then have trav: "isinstance_dict v \<or> isinstance v ts" by blast
    have reb: "rebuild v (map (\<lambda>obj. single_map_nested (f, obj, ts)) (seq_items iterable)) = v"
      unfolding iterable_def by (rule rebuild_identity [OF wf trav f])
    show ?thesis
    proof (cases "w \<le> 1 \<or> py_len iterable \<le> w")
      case True
      with False reb show ?thesis
        unfolding map_nested_checked Let_def ts_def [symmetric] iterable_def [symmetric]
          w_def [symmetric] by (simp add: f)
    next
      case par: False
      then have w: "0 < w" by simp
      have "unpack (map single_map_nested (split_kwds f iterable ts w)) =
            Inr (map (\<lambda>x. single_map_nested (f, x, ts)) (seq_items iterable))"
        unfolding iterable_def
        by (rule unpack_identity [OF w iterable_is_seq [OF trav] f wf_iterable [OF wf]])
      with False par reb show ?thesis
        unfolding map_nested_checked Let_def ts_def [symmetric] iterable_def [symmetric]
          w_def [symmetric] by (simp add: f)
    qed
  qed
qed


text \<open>
  When the chunks are of a kind the workers traverse (the input is not a dictionary, or
  lists are in \<^verbatim>\<open>types\<close>), the worker count does not change the result.
\<close>

lemma map_nested_num_proc_traversed:
  assumes trav: "\<not> isinstance_dict v \<or> TList \<in> set (case tys of
                 None \<Rightarrow> default_types dict_only map_list map_tuple map_numpy | Some ts \<Rightarrow> ts)"
  shows "map_nested f v dict_only map_list map_tuple map_numpy num_proc tys =
         map_nested f v dict_only map_list map_tuple map_numpy None tys"
proof -
  define ts where "ts = (case tys of None \<Rightarrow> default_types dict_only map_list map_tuple map_numpy
                | Some ts \<Rightarrow> ts)"
  define iterable where "iterable = (if isinstance_dict v then PList (dict_values v) else v)"
  define w where "w = (case num_proc of None \<Rightarrow> 1 | Some n \<Rightarrow> n)"
  show ?thesis
  proof (cases "(\<not> isinstance_dict v \<and> \<not> isinstance v ts) \<or> w \<le> 1 \<or> py_len iterable \<le> w")
    case True
    then show ?thesis
      unfolding map_nested_checked Let_def ts_def [symmetric] iterable_def [symmetric]
        w_def [symmetric] by auto
  next
    case False
    then have w: "0 < w" and tr: "isinstance_dict v \<or> isinstance v ts" by auto
    have seq: "is_seq iterable" unfolding iterable_def by (rule iterable_is_seq [OF tr])
    have inst: "isinstance iterable ts"
      using tr trav unfolding iterable_def ts_def by (cases v) auto
    have "unpack (map single_map_nested (split_kwds f iterable ts w)) =
          Inr (map (\<lambda>x. single_map_nested (f, x, ts)) (seq_items iterable))"
      by (rule unpack_traversed [OF w seq inst])
    with False show ?thesis
      unfolding map_nested_checked Let_def ts_def [symmetric] iterable_def [symmetric]
        w_def [symmetric] by auto
  qed
qed

text \<open>
  Claim C1. The result of \<^verbatim>\<open>map_nested\<close> must not depend on the worker count. It does
  for a dictionary when lists are not in \<^verbatim>\<open>types\<close> (\<^verbatim>\<open>dict_only=True\<close> or
  \<^verbatim>\<open>map_list=False\<close>): a chunk is a list of the dictionary's values, the worker takes
  it for a leaf and applies the function to the whole chunk. With the function
  \<^verbatim>\<open>lambda x: [x]\<close> on \<^verbatim>\<open>{"a": 1, "b": 2, "c": 3}\<close> and \<^verbatim>\<open>dict_only=True\<close>, one worker
  gives \<^verbatim>\<open>{"a": [1], "b": [2], "c": [3]}\<close> and two workers give
  \<^verbatim>\<open>{"a": [1, 2], "b": [3]}\<close>.
\<close>

theorem map_nested_num_proc_diverges:
  "map_nested (\<lambda>x. PList [x])
      (PDict [(PStr ''a'', PInt 1), (PStr ''b'', PInt 2), (PStr ''c'', PInt 3)])
      True True False False (Some 1) None
     = Inr (PDict [(PStr ''a'', PList [PInt 1]), (PStr ''b'', PList [PInt 2]),
                   (PStr ''c'', PList [PInt 3])])
   \<and> map_nested (\<lambda>x. PList [x])
      (PDict [(PStr ''a'', PInt 1), (PStr ''b'', PInt 2), (PStr ''c'', PInt 3)])
      True True False False (Some 2) None
     = Inr (PDict [(PStr ''a'', PList [PInt 1, PInt 2]), (PStr ''b'', PList [PInt 3])])"
  by code_simp

text \<open>
  Claim C5. With the identity, \<^verbatim>\<open>map_nested\<close> returns its input (lemma
  \<open>map_nested_identity_result\<close>), but the function is not only applied to leaves: on
  \<^verbatim>\<open>{"a": 1, "b": 2, "c": 3}\<close> with \<^verbatim>\<open>dict_only=True\<close> and two workers it is applied
  to the chunks \<^verbatim>\<open>[1, 2]\<close> and \<^verbatim>\<open>[3]\<close>. A function that is the identity on the leaves
  \<open>1\<close>, \<open>2\<close>, \<open>3\<close> and maps the list \<^verbatim>\<open>[1, 2]\<close> to the empty list makes the
  difference visible: the result is \<^verbatim>\<open>{"a": 3}\<close>.
\<close>

theorem map_nested_function_gets_chunk:
  "(\<lambda>x. if x = PList [PInt 1, PInt 2] then PList [] else x) (PInt 1) = PInt 1
   \<and> (\<lambda>x. if x = PList [PInt 1, PInt 2] then PList [] else x) (PInt 2) = PInt 2
   \<and> (\<lambda>x. if x = PList [PInt 1, PInt 2] then PList [] else x) (PInt 3) = PInt 3
   \<and> map_nested (\<lambda>x. x)
        (PDict [(PStr ''a'', PInt 1), (PStr ''b'', PInt 2), (PStr ''c'', PInt 3)])
        True True False False (Some 2) None
       = Inr (PDict [(PStr ''a'', PInt 1), (PStr ''b'', PInt 2), (PStr ''c'', PInt 3)])
   \<and> map_nested (\<lambda>x. if x = PList [PInt 1, PInt 2] then PList [] else x)
        (PDict [(PStr ''a'', PInt 1), (PStr ''b'', PInt 2), (PStr ''c'', PInt 3)])
        True True False False (Some 2) None
       = Inr (PDict [(PStr ''a'', PInt 3)])"
  by code_simp

section \<open>NonMutableDict\<close>

text \<open>
  \<^verbatim>\<open>class NonMutableDict(dict)\<close>. The keys and values are Python values. A key must be
  hashable: lists, dictionaries and arrays are not, a tuple is when its items are.
\<close>

fun hashable :: "pyval \<Rightarrow> bool" where
  "hashable (PList xs) = False"
| "hashable (PArray xs) = False"
| "hashable (PDict kvs) = False"
| "hashable (PTuple xs) = list_all hashable xs"
| "hashable v = True"

text \<open>\<^verbatim>\<open>key in d\<close> hashes the key first.\<close>

definition dict_in :: "(pyval \<times> pyval) list \<Rightarrow> pyval \<Rightarrow> error + bool" where
  "dict_in d key =
     (if hashable key then Inr (key \<in> set (map fst d)) else Inl (TypeError ''unhashable type''))"

text \<open>
  The error message is a template for \<^verbatim>\<open>str.format\<close>. A well-formed template is a
  sequence of literal texts and replacement fields; a field is given by its argument
  name (conversions and format specifications are left out). The source calls
  \<^verbatim>\<open>self._error_msg.format(key=...)\<close>, with the one keyword argument \<^verbatim>\<open>key\<close> and no
  positional argument: the fields are replaced from left to right, a field with another
  name raises \<^verbatim>\<open>KeyError(name)\<close>, and a positional field (an empty name or a number)
  raises \<^verbatim>\<open>IndexError\<close>. The second argument below is the text of the value given for
  \<^verbatim>\<open>key\<close>.
\<close>

datatype piece = Literal string | Replacement string

definition is_positional :: "string \<Rightarrow> bool" where
  "is_positional name = list_all (\<lambda>c. c \<in> set ''0123456789'') name"

fun format_key :: "piece list \<Rightarrow> string \<Rightarrow> error + string" where
  "format_key [] key = Inr []"
| "format_key (Literal s # rest) key =
     (case format_key rest key of Inl e \<Rightarrow> Inl e | Inr t \<Rightarrow> Inr (s @ t))"
| "format_key (Replacement name # rest) key =
     (if name = ''key''
      then (case format_key rest key of Inl e \<Rightarrow> Inl e | Inr t \<Rightarrow> Inr (key @ t))
      else if is_positional name
      then Inl (IndexError ''Replacement index out of range for positional args tuple'')
      else Inl (KeyError name))"

text \<open>
  \<^verbatim>\<open>dict.update(d, other)\<close>, the inherited method that the class calls through
  \<^verbatim>\<open>super()\<close>. A dictionary \<^verbatim>\<open>other\<close> gives its items. Anything else is iterated, and
  every element must itself iterate to exactly two items, a key and a value. The items
  are stored one by one with the built-in assignment (the \<^verbatim>\<open>__setitem__\<close> of a subclass
  is not called), so what was stored before an error stays. The result is the dictionary
  after the call and the exception raised, if any.
\<close>

fun update_pairs ::
  "(pyval \<times> pyval) list \<Rightarrow> pyval list \<Rightarrow> (pyval \<times> pyval) list \<times> error option" where
  "update_pairs d [] = (d, None)"
| "update_pairs d (x # xs) =
     (case py_iter x of
        Inl e \<Rightarrow>
          (d, Some (TypeError ''cannot convert dictionary update sequence element to a sequence''))
      | Inr [k, v] \<Rightarrow>
          if hashable k then update_pairs (dict_setitem d k v) xs
          else (d, Some (TypeError ''unhashable type''))
      | Inr items \<Rightarrow>
          (d, Some (ValueError ''dictionary update sequence element has length; 2 is required'')))"

definition dict_update ::
  "(pyval \<times> pyval) list \<Rightarrow> pyval \<Rightarrow> (pyval \<times> pyval) list \<times> error option" where
  "dict_update d other =
     (if isinstance_dict other
      then (foldl (\<lambda>d (k, v). dict_setitem d k v) d (dict_items other), None)
      else case py_iter other of
             Inl e \<Rightarrow> (d, Some e)
           | Inr xs \<Rightarrow> update_pairs d xs)"

text \<open>
  The object is its template and the entries it holds as a dictionary. A method returns
  the object after the call and the exception it raised, if any.
\<close>

record NonMutableDict =
  error_msg :: "piece list"
  entries :: "(pyval \<times> pyval) list"

text \<open>
  \<^verbatim>\<open>__init__(self, *args, **kwargs)\<close>: \<^verbatim>\<open>kwargs.pop("error_msg", default)\<close>, then any
  keyword left is refused, and \<^verbatim>\<open>dict.__init__(*args)\<close> takes at most one positional
  argument, which it stores as \<^verbatim>\<open>dict.update\<close> does.
\<close>

definition NonMutableDict_init ::
  "pyval list \<Rightarrow> (string \<times> piece list) list \<Rightarrow> error + NonMutableDict" where
  "NonMutableDict_init args kwargs =
     (let msg = (case map_of kwargs ''error_msg'' of
                   None \<Rightarrow> [Literal ''Try to overwrite existing key: '', Replacement ''key'']
                 | Some m \<Rightarrow> m);
          kwargs = filter (\<lambda>(name, value). name \<noteq> ''error_msg'') kwargs
      in if kwargs \<noteq> [] then Inl (ValueError ''NonMutableDict cannot be initialized with kwargs.'')
         else case args of
                [] \<Rightarrow> Inr \<lparr>error_msg = msg, entries = []\<rparr>
              | [other] \<Rightarrow>
                  (case dict_update [] other of
                     (d, None) \<Rightarrow> Inr \<lparr>error_msg = msg, entries = d\<rparr>
                   | (d, Some e) \<Rightarrow> Inl e)
              | _ \<Rightarrow> Inl (TypeError ''dict expected at most 1 argument''))"

text \<open>
  \<^verbatim>\<open>__setitem__(self, key, value)\<close>. When the key is present the argument of
  \<^verbatim>\<open>ValueError\<close> is evaluated first: \<^verbatim>\<open>self._error_msg.format(key=key)\<close> either gives the
  message or raises itself. The parameter \<open>str\<close> is the text of a key, as \<^verbatim>\<open>format\<close>
  writes it.
\<close>

definition NonMutableDict_setitem ::
  "(pyval \<Rightarrow> string) \<Rightarrow> NonMutableDict \<Rightarrow> pyval \<Rightarrow> pyval \<Rightarrow> NonMutableDict \<times> error option" where
  "NonMutableDict_setitem str self key value =
     (case dict_in (entries self) key of
        Inl e \<Rightarrow> (self, Some e)
      | Inr True \<Rightarrow>
          (case format_key (error_msg self) (str key) of
             Inl e \<Rightarrow> (self, Some e)
           | Inr msg \<Rightarrow> (self, Some (ValueError msg)))
      | Inr False \<Rightarrow> (self\<lparr>entries := dict_setitem (entries self) key value\<rparr>, None))"

text \<open>
  \<^verbatim>\<open>any(k in self for k in other)\<close>: the elements that iterating \<^verbatim>\<open>other\<close> yields are
  looked up as keys, one after the other, up to the first that is present.
\<close>

fun any_in :: "(pyval \<times> pyval) list \<Rightarrow> pyval list \<Rightarrow> error + bool" where
  "any_in d [] = Inr False"
| "any_in d (k # ks) =
     (case dict_in d k of
        Inl e \<Rightarrow> Inl e
      | Inr True \<Rightarrow> Inr True
      | Inr False \<Rightarrow> any_in d ks)"

text \<open>
  \<^verbatim>\<open>update(self, other)\<close>. The test iterates \<^verbatim>\<open>other\<close>: the keys of a dictionary, but
  the elements themselves of any other iterable. When the test finds one,
  \<^verbatim>\<open>set(self) & set(other)\<close> hashes every element of \<^verbatim>\<open>other\<close> and the template is
  formatted with the text of that set (the parameter \<open>str_set\<close>, applied to the keys of
  \<^verbatim>\<open>self\<close> that occur in \<^verbatim>\<open>other\<close>). Otherwise the inherited \<^verbatim>\<open>dict.update\<close> runs.
\<close>

definition NonMutableDict_update ::
  "(pyval list \<Rightarrow> string) \<Rightarrow> NonMutableDict \<Rightarrow> pyval \<Rightarrow> NonMutableDict \<times> error option" where
  "NonMutableDict_update str_set self other =
     (case py_iter other of
        Inl e \<Rightarrow> (self, Some e)
      | Inr ks \<Rightarrow>
          (case any_in (entries self) ks of
             Inl e \<Rightarrow> (self, Some e)
           | Inr True \<Rightarrow>
               if \<not> list_all hashable ks then (self, Some (TypeError ''unhashable type''))
               else (case format_key (error_msg self)
                            (str_set (filter (\<lambda>k. k \<in> set ks) (map fst (entries self)))) of
                       Inl e \<Rightarrow> (self, Some e)
                     | Inr msg \<Rightarrow> (self, Some (ValueError msg)))
           | Inr False \<Rightarrow>
               (case dict_update (entries self) other of
                  (d, raised) \<Rightarrow> (self\<lparr>entries := d\<rparr>, raised))))"

text \<open>A template whose fields are all \<^verbatim>\<open>{key}\<close>, as the class documents it.\<close>

fun key_only :: "piece \<Rightarrow> bool" where
  "key_only (Literal s) = True"
| "key_only (Replacement name) = (name = ''key'')"

text \<open>
  With a dictionary argument, hashable keys and a template that uses only \<^verbatim>\<open>{key}\<close>,
  the class does what its documentation says: a present key raises \<^verbatim>\<open>ValueError\<close> and
  nothing is stored, fresh keys are appended.
\<close>

lemma format_key_key_only:
  "list_all key_only t \<Longrightarrow> \<exists>msg. format_key t key = Inr msg"
proof (induction t)
  case Nil
  then show ?case by simp
next
  case (Cons p t)
  then obtain msg where "format_key t key = Inr msg" by auto
  then show ?case using Cons.prems by (cases p) auto
qed

lemma any_in_hashable:
  "list_all hashable ks \<Longrightarrow> any_in d ks = Inr (\<exists>k \<in> set ks. k \<in> fst ` set d)"
  by (induction ks) (auto simp: dict_in_def split: bool.splits)

lemma foldl_setitem_fresh:
  "distinct (map fst pairs) \<Longrightarrow> fst ` set pairs \<inter> fst ` set d = {} \<Longrightarrow>
   foldl (\<lambda>d (k, v). dict_setitem d k v) d pairs = d @ pairs"
proof (induction pairs arbitrary: d)
  case Nil
  then show ?case by simp
next
  case (Cons p pairs)
  obtain k v where p: "p = (k, v)" by (cases p)
  have fresh: "k \<notin> fst ` set d" using Cons.prems p by auto
  have "fst ` set pairs \<inter> fst ` set (d @ [(k, v)]) = {}" using Cons.prems p by auto
  moreover have "distinct (map fst pairs)" using Cons.prems by simp
  ultimately have "foldl (\<lambda>d (k, v). dict_setitem d k v) (d @ [(k, v)]) pairs = (d @ [(k, v)]) @ pairs"
    by (intro Cons.IH)
  then show ?case using fresh p by (simp add: dict_setitem_fresh)
qed

lemma NonMutableDict_setitem_present:
  assumes "hashable k" and "k \<in> fst ` set (entries d)" and "list_all key_only (error_msg d)"
  shows "\<exists>msg. NonMutableDict_setitem str d k v = (d, Some (ValueError msg))"
proof -
  obtain msg where "format_key (error_msg d) (str k) = Inr msg"
    using format_key_key_only [OF assms(3)] by blast
  then show ?thesis using assms(1,2) by (simp add: NonMutableDict_setitem_def dict_in_def)
qed

lemma NonMutableDict_setitem_fresh:
  assumes "hashable k" and "k \<notin> fst ` set (entries d)"
  shows "NonMutableDict_setitem str d k v = (d\<lparr>entries := entries d @ [(k, v)]\<rparr>, None)"
  using assms by (simp add: NonMutableDict_setitem_def dict_in_def dict_setitem_fresh)

lemma NonMutableDict_update_dict_present:
  assumes "list_all hashable (map fst kvs)"
    and "\<exists>k \<in> set (map fst kvs). k \<in> fst ` set (entries d)"
    and "list_all key_only (error_msg d)"
  shows "\<exists>msg. NonMutableDict_update str_set d (PDict kvs) = (d, Some (ValueError msg))"
proof -
  let ?key = "str_set (filter (\<lambda>k. k \<in> set (map fst kvs)) (map fst (entries d)))"
  obtain msg where "format_key (error_msg d) ?key = Inr msg"
    using format_key_key_only [OF assms(3)] by blast
  moreover have "any_in (entries d) (map fst kvs) = Inr True"
    using any_in_hashable [OF assms(1)] assms(2) by simp
  ultimately show ?thesis using assms(1) by (simp add: NonMutableDict_update_def)
qed

lemma NonMutableDict_update_dict_fresh:
  assumes "list_all hashable (map fst kvs)"
    and "distinct (map fst kvs)"
    and "fst ` set kvs \<inter> fst ` set (entries d) = {}"
  shows "NonMutableDict_update str_set d (PDict kvs) = (d\<lparr>entries := entries d @ kvs\<rparr>, None)"
proof -
  have "any_in (entries d) (map fst kvs) = Inr False"
    using any_in_hashable [OF assms(1)] assms(3) by auto
  then show ?thesis
    using assms(2,3) by (simp add: NonMutableDict_update_def dict_update_def foldl_setitem_fresh)
qed

text \<open>
  Claim C10 says that for every NonMutableDict \<open>d\<close>, \<^verbatim>\<open>d.update(other)\<close> raises
  \<^verbatim>\<open>ValueError\<close> when a key of \<^verbatim>\<open>other\<close> is already in \<open>d\<close> and then stores nothing,
  and that \<^verbatim>\<open>d[k] = v\<close> with \<open>k\<close> present raises \<^verbatim>\<open>ValueError\<close>. The code does not do
  so. With \<^verbatim>\<open>d = NonMutableDict({'a': 1})\<close>, \<^verbatim>\<open>d.update([('a', 2)])\<close> raises nothing and
  leaves \<^verbatim>\<open>{'a': 2}\<close>: the test looks up the pair \<^verbatim>\<open>('a', 2)\<close>, which is not a key, and the
  inherited update then overwrites \<^verbatim>\<open>'a'\<close>. The same items given as a dictionary are
  refused with the \<^verbatim>\<open>ValueError\<close>, and so is \<^verbatim>\<open>d['a'] = 2\<close>. When the template has a
  field other than \<^verbatim>\<open>{key}\<close>, the exception is the \<^verbatim>\<open>KeyError\<close> of \<^verbatim>\<open>format\<close>, not a
  \<^verbatim>\<open>ValueError\<close>.
\<close>

theorem NonMutableDict_update_pairs_overwrites:
  "NonMutableDict_init [PDict [(PStr ''a'', PInt 1)]] []
     = Inr \<lparr>error_msg = [Literal ''Try to overwrite existing key: '', Replacement ''key''],
            entries = [(PStr ''a'', PInt 1)]\<rparr>
   \<and> NonMutableDict_update str_set
        \<lparr>error_msg = [Literal ''Try to overwrite existing key: '', Replacement ''key''],
         entries = [(PStr ''a'', PInt 1)]\<rparr>
        (PList [PTuple [PStr ''a'', PInt 2]])
     = (\<lparr>error_msg = [Literal ''Try to overwrite existing key: '', Replacement ''key''],
         entries = [(PStr ''a'', PInt 2)]\<rparr>, None)
   \<and> NonMutableDict_update str_set
        \<lparr>error_msg = [Literal ''Try to overwrite existing key: '', Replacement ''key''],
         entries = [(PStr ''a'', PInt 1)]\<rparr>
        (PDict [(PStr ''a'', PInt 2)])
     = (\<lparr>error_msg = [Literal ''Try to overwrite existing key: '', Replacement ''key''],
         entries = [(PStr ''a'', PInt 1)]\<rparr>,
        Some (ValueError (''Try to overwrite existing key: '' @ str_set [PStr ''a''])))
   \<and> NonMutableDict_setitem str
        \<lparr>error_msg = [Literal ''Try to overwrite existing key: '', Replacement ''key''],
         entries = [(PStr ''a'', PInt 1)]\<rparr>
        (PStr ''a'') (PInt 2)
     = (\<lparr>error_msg = [Literal ''Try to overwrite existing key: '', Replacement ''key''],
         entries = [(PStr ''a'', PInt 1)]\<rparr>,
        Some (ValueError (''Try to overwrite existing key: '' @ str (PStr ''a''))))
   \<and> NonMutableDict_setitem str
        \<lparr>error_msg = [Literal ''Duplicate '', Replacement ''name''],
         entries = [(PStr ''a'', PInt 1)]\<rparr>
        (PStr ''a'') (PInt 2)
     = (\<lparr>error_msg = [Literal ''Duplicate '', Replacement ''name''],
         entries = [(PStr ''a'', PInt 1)]\<rparr>,
        Some (KeyError ''name''))"
  by (simp add: NonMutableDict_init_def NonMutableDict_update_def NonMutableDict_setitem_def
      dict_update_def dict_in_def is_positional_def)

section \<open>File sizes\<close>

text \<open>
  \<^verbatim>\<open>convert_file_size_to_int(size)\<close> takes an \<^verbatim>\<open>int\<close> or a \<^verbatim>\<open>str\<close>. Text is a list of
  characters with code points below 256. \<^verbatim>\<open>str.upper\<close> is modelled on the letters \<open>a\<close>
  to \<open>z\<close>: no other character below 256 has a letter of one of the units in its upper-case
  form, so the tests of the units read the same. \<^verbatim>\<open>size[:-3]\<close> is the slice from \<open>0\<close> to
  \<open>-3\<close>.
\<close>

datatype size_arg = SizeInt int | SizeStr string

definition upper_char :: "char \<Rightarrow> char" where
  "upper_char c =
     (case map_of (zip ''abcdefghijklmnopqrstuvwxyz'' ''ABCDEFGHIJKLMNOPQRSTUVWXYZ'') c of
        None \<Rightarrow> c
      | Some u \<Rightarrow> u)"

definition py_upper :: "string \<Rightarrow> string" where
  "py_upper s = map upper_char s"

definition endswith :: "string \<Rightarrow> string \<Rightarrow> bool" where
  "endswith s suffix =
     (length suffix \<le> length s \<and> drop (length s - length suffix) s = suffix)"

text \<open>
  \<^verbatim>\<open>int(text)\<close> in base ten: white space around the number is dropped, one sign may
  come first, and the digits may be grouped by single underscores between digits. Anything
  else is not a number (\<^verbatim>\<open>ValueError\<close>). The white space that \<^verbatim>\<open>int\<close> drops is the
  characters \<open>0x09\<close> to \<open>0x0D\<close> and the space, and of the characters above \<open>0x7F\<close> the two
  that are white space, \<open>0x85\<close> and \<open>0xA0\<close>; the separators \<open>0x1C\<close> to \<open>0x1F\<close> are not
  dropped.
\<close>

definition is_space :: "char \<Rightarrow> bool" where
  "is_space c = (c \<in> set [CHR 0x09, CHR 0x0A, CHR 0x0B, CHR 0x0C, CHR 0x0D, CHR 0x20,
                           CHR 0x85, CHR 0xA0])"

definition py_strip :: "string \<Rightarrow> string" where
  "py_strip s = rev (dropWhile is_space (rev (dropWhile is_space s)))"

definition digit_of :: "char \<Rightarrow> int option" where
  "digit_of c = map_of (zip ''0123456789'' [0, 1, 2, 3, 4, 5, 6, 7, 8, 9]) c"

fun parse_digits :: "int \<Rightarrow> bool \<Rightarrow> string \<Rightarrow> int option" where
  "parse_digits acc after_digit [] = (if after_digit then Some acc else None)"
| "parse_digits acc after_digit (c # cs) =
     (if c = CHR ''_'' then (if after_digit then parse_digits acc False cs else None)
      else case digit_of c of
             None \<Rightarrow> None
           | Some d \<Rightarrow> parse_digits (10 * acc + d) True cs)"

definition py_int :: "string \<Rightarrow> int option" where
  "py_int s =
     (case py_strip s of
        c # cs \<Rightarrow>
          if c = CHR ''-'' then map_option uminus (parse_digits 0 False cs)
          else if c = CHR ''+'' then parse_digits 0 False cs
          else parse_digits 0 False (c # cs)
      | [] \<Rightarrow> None)"

definition int_of_str :: "string \<Rightarrow> error + int" where
  "int_of_str s =
     (case py_int s of
        None \<Rightarrow> Inl (ValueError ''invalid literal for int() with base 10'')
      | Some k \<Rightarrow> Inr k)"

definition scaled :: "error + int \<Rightarrow> (int \<Rightarrow> int) \<Rightarrow> error + int" where
  "scaled r f = (case r of Inl e \<Rightarrow> Inl e | Inr k \<Rightarrow> Inr (f k))"

text \<open>
  The branches in the order of the source. The message of the last error is shortened.
\<close>

fun convert_file_size_to_int :: "size_arg \<Rightarrow> error + int" where
  "convert_file_size_to_int (SizeInt size') = Inr size'"
| "convert_file_size_to_int (SizeStr size') =
     (if endswith (py_upper size') ''GIB''
      then scaled (int_of_str (list_slice size' 0 (- 3))) (\<lambda>k. k * 2 ^ 30)
      else if endswith (py_upper size') ''MIB''
      then scaled (int_of_str (list_slice size' 0 (- 3))) (\<lambda>k. k * 2 ^ 20)
      else if endswith (py_upper size') ''KIB''
      then scaled (int_of_str (list_slice size' 0 (- 3))) (\<lambda>k. k * 2 ^ 10)
      else if endswith (py_upper size') ''GB''
      then scaled (int_of_str (list_slice size' 0 (- 2)))
             (\<lambda>k. let int_size = k * 10 ^ 9
                  in if endswith size' ''b'' then int_size div 8 else int_size)
      else if endswith (py_upper size') ''MB''
      then scaled (int_of_str (list_slice size' 0 (- 2)))
             (\<lambda>k. let int_size = k * 10 ^ 6
                  in if endswith size' ''b'' then int_size div 8 else int_size)
      else if endswith (py_upper size') ''KB''
      then scaled (int_of_str (list_slice size' 0 (- 2)))
             (\<lambda>k. let int_size = k * 10 ^ 3
                  in if endswith size' ''b'' then int_size div 8 else int_size)
      else Inl (ValueError ''size is not in a valid format. Use an integer followed by the unit''))"

lemma endswith_iff: "endswith s suffix \<longleftrightarrow> (\<exists>p. s = p @ suffix)"
proof
  assume "endswith s suffix"
  then have "s = take (length s - length suffix) s @ suffix"
    unfolding endswith_def by (metis append_take_drop_id)
  then show "\<exists>p. s = p @ suffix" ..
next
  assume "\<exists>p. s = p @ suffix"
  then show "endswith s suffix" by (auto simp: endswith_def)
qed

lemma endswith_same_length:
  "endswith s p \<Longrightarrow> endswith s q \<Longrightarrow> length p = length q \<Longrightarrow> p = q"
  by (auto simp: endswith_iff)

lemma endswith_2_3:
  "endswith s [x, y] \<Longrightarrow> endswith s [a, b, c] \<Longrightarrow> b = x \<and> c = y"
proof -
  assume "endswith s [x, y]" "endswith s [a, b, c]"
  then obtain p q where "s = p @ [x, y]" "s = q @ [a, b, c]" by (auto simp: endswith_iff)
  then have "p @ [x, y] = (q @ [a]) @ [b, c]" by simp
  then have "[x, y] = [b, c]" by (subst (asm) append_eq_append_conv) simp_all
  then show ?thesis by simp
qed

text \<open>
  What \<^verbatim>\<open>int\<close> drops around a number: a separator such as \<open>0x1C\<close> is not white space for
  it, the no-break space \<open>0xA0\<close> is.
\<close>

lemma py_int_white_space:
  "py_int [CHR 0x1C, CHR ''5''] = None \<and> py_int [CHR 0xA0, CHR ''5''] = Some 5
   \<and> py_int [CHR 0x09, CHR ''5'', CHR 0x20] = Some 5"
  by code_simp

text \<open>
  Claim C9, as stated, fails where it lets a lower-case final \<open>b\<close> divide by 8 for every
  unit: the text \<^verbatim>\<open>"8Kib"\<close> ends in a lower-case \<open>b\<close>, its unit is \<open>KIB\<close>, and the result is
  \<open>8 * 2^10 = 8192\<close>, not \<open>8192 div 8\<close>. The branches of the binary units have no division.
\<close>

theorem convert_file_size_to_int_binary_unit_bits:
  "endswith (py_upper ''8Kib'') ''KIB'' \<and> endswith ''8Kib'' ''b''
   \<and> py_int (list_slice ''8Kib'' 0 (- 3)) = Some 8
   \<and> convert_file_size_to_int (SizeStr ''8Kib'') = Inr 8192
   \<and> convert_file_size_to_int (SizeStr ''8Kib'') \<noteq> Inr (8 * 2 ^ 10 div 8)"
  by code_simp

text \<open>
  Claim C9, amended. An integer is returned as it is; \<^verbatim>\<open>"1MiB"\<close> is 1048576 and
  \<^verbatim>\<open>"5GB"\<close> is 5000000000. For a text whose upper-case form ends in \<open>GIB\<close>, \<open>MIB\<close> or
  \<open>KIB\<close> and whose front is the number \<open>k\<close> for \<^verbatim>\<open>int\<close>, the result is \<open>k\<close> times \<open>2^30\<close>,
  \<open>2^20\<close> or \<open>2^10\<close>, whatever the case of its last letter; for \<open>GB\<close>, \<open>MB\<close> or \<open>KB\<close> it
  is \<open>k\<close> times \<open>10^9\<close>, \<open>10^6\<close> or \<open>10^3\<close>, divided by 8 (rounding down) when the text
  ends in a lower-case \<open>b\<close>. A text with none of these endings raises \<^verbatim>\<open>ValueError\<close>, and
  so does a text with one of them whose front is not a number.
\<close>

theorem convert_file_size_to_int_units:
  "convert_file_size_to_int (SizeInt n) = Inr n
   \<and> convert_file_size_to_int (SizeStr ''1MiB'') = Inr 1048576
   \<and> convert_file_size_to_int (SizeStr ''5GB'') = Inr 5000000000
   \<and> (py_int (list_slice s 0 (- 3)) = Some k \<longrightarrow>
        (endswith (py_upper s) ''GIB'' \<longrightarrow> convert_file_size_to_int (SizeStr s) = Inr (k * 2 ^ 30))
      \<and> (endswith (py_upper s) ''MIB'' \<longrightarrow> convert_file_size_to_int (SizeStr s) = Inr (k * 2 ^ 20))
      \<and> (endswith (py_upper s) ''KIB'' \<longrightarrow> convert_file_size_to_int (SizeStr s) = Inr (k * 2 ^ 10)))
   \<and> (py_int (list_slice s 0 (- 2)) = Some k \<longrightarrow>
        (endswith (py_upper s) ''GB'' \<longrightarrow> convert_file_size_to_int (SizeStr s) =
            Inr (if endswith s ''b'' then k * 10 ^ 9 div 8 else k * 10 ^ 9))
      \<and> (endswith (py_upper s) ''MB'' \<longrightarrow> convert_file_size_to_int (SizeStr s) =
            Inr (if endswith s ''b'' then k * 10 ^ 6 div 8 else k * 10 ^ 6))
      \<and> (endswith (py_upper s) ''KB'' \<longrightarrow> convert_file_size_to_int (SizeStr s) =
            Inr (if endswith s ''b'' then k * 10 ^ 3 div 8 else k * 10 ^ 3)))
   \<and> (\<not> endswith (py_upper s) ''GIB'' \<and> \<not> endswith (py_upper s) ''MIB''
        \<and> \<not> endswith (py_upper s) ''KIB'' \<and> \<not> endswith (py_upper s) ''GB''
        \<and> \<not> endswith (py_upper s) ''MB'' \<and> \<not> endswith (py_upper s) ''KB'' \<longrightarrow>
        convert_file_size_to_int (SizeStr s) =
          Inl (ValueError ''size is not in a valid format. Use an integer followed by the unit''))
   \<and> (py_int (list_slice s 0 (- 3)) = None
        \<and> (endswith (py_upper s) ''GIB'' \<or> endswith (py_upper s) ''MIB''
             \<or> endswith (py_upper s) ''KIB'') \<longrightarrow>
        convert_file_size_to_int (SizeStr s) =
          Inl (ValueError ''invalid literal for int() with base 10''))
   \<and> (py_int (list_slice s 0 (- 2)) = None
        \<and> (endswith (py_upper s) ''GB'' \<or> endswith (py_upper s) ''MB''
             \<or> endswith (py_upper s) ''KB'') \<longrightarrow>
        convert_file_size_to_int (SizeStr s) =
          Inl (ValueError ''invalid literal for int() with base 10''))"
proof -
  let ?u = "py_upper s"
  have ex3: "endswith ?u p \<Longrightarrow> endswith ?u q \<Longrightarrow> length p = length q \<Longrightarrow> p = q" for p q
    by (rule endswith_same_length)
  have ex23: "endswith ?u [x, y] \<Longrightarrow> endswith ?u [a, b, c] \<Longrightarrow> b = x \<and> c = y" for x y a b c
    by (rule endswith_2_3)
  have e1: "convert_file_size_to_int (SizeStr ''1MiB'') = Inr 1048576" by code_simp
  have e2: "convert_file_size_to_int (SizeStr ''5GB'') = Inr 5000000000" by code_simp
  have b3: "py_int (list_slice s 0 (- 3)) = Some k \<Longrightarrow>
        (endswith ?u ''GIB'' \<longrightarrow> convert_file_size_to_int (SizeStr s) = Inr (k * 2 ^ 30))
      \<and> (endswith ?u ''MIB'' \<longrightarrow> convert_file_size_to_int (SizeStr s) = Inr (k * 2 ^ 20))
      \<and> (endswith ?u ''KIB'' \<longrightarrow> convert_file_size_to_int (SizeStr s) = Inr (k * 2 ^ 10))"
    using ex3 [of "''GIB''" "''MIB''"] ex3 [of "''GIB''" "''KIB''"] ex3 [of "''MIB''" "''KIB''"]
    by (auto simp: int_of_str_def scaled_def)
  have no3: "endswith ?u [x, CHR ''B''] \<Longrightarrow>
        \<not> endswith ?u ''GIB'' \<and> \<not> endswith ?u ''MIB'' \<and> \<not> endswith ?u ''KIB''" 
    if "x \<noteq> CHR ''I''" for x
    using that ex23 [of x "CHR ''B''" _ "CHR ''I''" "CHR ''B''"] by blast
  have b2: "py_int (list_slice s 0 (- 2)) = Some k \<Longrightarrow>
        (endswith ?u ''GB'' \<longrightarrow> convert_file_size_to_int (SizeStr s) =
            Inr (if endswith s ''b'' then k * 10 ^ 9 div 8 else k * 10 ^ 9))
      \<and> (endswith ?u ''MB'' \<longrightarrow> convert_file_size_to_int (SizeStr s) =
            Inr (if endswith s ''b'' then k * 10 ^ 6 div 8 else k * 10 ^ 6))
      \<and> (endswith ?u ''KB'' \<longrightarrow> convert_file_size_to_int (SizeStr s) =
            Inr (if endswith s ''b'' then k * 10 ^ 3 div 8 else k * 10 ^ 3))"
    using no3 [of "CHR ''G''"] no3 [of "CHR ''M''"] no3 [of "CHR ''K''"]
      ex3 [of "''GB''" "''MB''"] ex3 [of "''GB''" "''KB''"] ex3 [of "''MB''" "''KB''"]
    by (auto simp: int_of_str_def scaled_def Let_def)
  have n3: "py_int (list_slice s 0 (- 3)) = None \<Longrightarrow>
        endswith ?u ''GIB'' \<or> endswith ?u ''MIB'' \<or> endswith ?u ''KIB'' \<Longrightarrow>
        convert_file_size_to_int (SizeStr s) =
          Inl (ValueError ''invalid literal for int() with base 10'')"
    by (auto simp: int_of_str_def scaled_def)
  have n2: "py_int (list_slice s 0 (- 2)) = None \<Longrightarrow>
        endswith ?u ''GB'' \<or> endswith ?u ''MB'' \<or> endswith ?u ''KB'' \<Longrightarrow>
        convert_file_size_to_int (SizeStr s) =
          Inl (ValueError ''invalid literal for int() with base 10'')"
    using no3 [of "CHR ''G''"] no3 [of "CHR ''M''"] no3 [of "CHR ''K''"]
    by (auto simp: int_of_str_def scaled_def)
  show ?thesis
    using e1 e2 b3 b2 n3 n2 by simp
qed

theorem convert_file_size_to_int_units_witness:
  "py_int (list_slice ''3kib'' 0 (- 3)) = Some 3 \<and> endswith (py_upper ''3kib'') ''KIB''
   \<and> convert_file_size_to_int (SizeStr ''3kib'') = Inr 3072
   \<and> py_int (list_slice ''16kb'' 0 (- 2)) = Some 16 \<and> endswith (py_upper ''16kb'') ''KB''
   \<and> convert_file_size_to_int (SizeStr ''16kb'') = Inr 2000
   \<and> convert_file_size_to_int (SizeStr ''5TB'') =
         Inl (ValueError ''size is not in a valid format. Use an integer followed by the unit'')
   \<and> py_int (list_slice ''1.5GB'' 0 (- 2)) = None \<and> endswith (py_upper ''1.5GB'') ''GB''
   \<and> convert_file_size_to_int (SizeStr ''1.5GB'') =
         Inl (ValueError ''invalid literal for int() with base 10'')"
proof -
  have h1: "py_int (list_slice ''3kib'' 0 (- 3)) = Some 3" by code_simp
  have h2: "endswith (py_upper ''3kib'') ''KIB''" by code_simp
  have h3: "py_int (list_slice ''16kb'' 0 (- 2)) = Some 16" by code_simp
  have h4: "endswith (py_upper ''16kb'') ''KB''" by code_simp
  have h5: "endswith ''16kb'' ''b''" by code_simp
  have h6: "\<not> endswith (py_upper ''5TB'') ''GIB''" "\<not> endswith (py_upper ''5TB'') ''MIB''"
    "\<not> endswith (py_upper ''5TB'') ''KIB''" "\<not> endswith (py_upper ''5TB'') ''GB''"
    "\<not> endswith (py_upper ''5TB'') ''MB''" "\<not> endswith (py_upper ''5TB'') ''KB''"
    by code_simp+
  have a: "convert_file_size_to_int (SizeStr ''3kib'') = Inr 3072"
    using h1 h2 convert_file_size_to_int_units [of _ "''3kib''" 3] by simp
  have b: "convert_file_size_to_int (SizeStr ''16kb'') = Inr 2000"
    using h3 h4 h5 convert_file_size_to_int_units [of _ "''16kb''" 16] by simp
  have c: "convert_file_size_to_int (SizeStr ''5TB'') =
         Inl (ValueError ''size is not in a valid format. Use an integer followed by the unit'')"
    using h6 convert_file_size_to_int_units [of _ "''5TB''" 0] by blast
  have h7: "py_int (list_slice ''1.5GB'' 0 (- 2)) = None" by code_simp
  have h8: "endswith (py_upper ''1.5GB'') ''GB''" by code_simp
  have d: "convert_file_size_to_int (SizeStr ''1.5GB'') =
         Inl (ValueError ''invalid literal for int() with base 10'')"
    using h7 h8 convert_file_size_to_int_units [of _ "''1.5GB''" 0] by blast
  show ?thesis using h1 h2 h3 h4 h7 h8 a b c d by blast
qed

section \<open>Serialisation without cache fields\<close>

text \<open>
  An object as \<^verbatim>\<open>dumps\<close> sees it: the names of the classes in \<^verbatim>\<open>type(obj).__mro__\<close>,
  the attributes found on its class and the attributes of the instance. \<^verbatim>\<open>getattr\<close> looks
  at the instance first, \<^verbatim>\<open>setattr\<close> writes to the instance.
\<close>

record py_object =
  mro_names :: "string list"
  class_attrs :: "(string \<times> pyval) list"
  inst_attrs :: "(string \<times> pyval) list"

definition py_getattr :: "py_object \<Rightarrow> string \<Rightarrow> pyval option" where
  "py_getattr obj attr =
     (case map_of (inst_attrs obj) attr of
        Some v \<Rightarrow> Some v
      | None \<Rightarrow> map_of (class_attrs obj) attr)"

definition py_hasattr :: "py_object \<Rightarrow> string \<Rightarrow> bool" where
  "py_hasattr obj attr = (py_getattr obj attr \<noteq> None)"

definition py_setattr :: "py_object \<Rightarrow> string \<Rightarrow> pyval \<Rightarrow> py_object" where
  "py_setattr obj attr value = obj\<lparr>inst_attrs := dict_setitem (inst_attrs obj) attr value\<rparr>"

text \<open>
  A context manager is a function of the body of its \<^verbatim>\<open>with\<close> block. The body takes the
  object and returns it with its outcome: a value, or the exception it raised. The
  \<^verbatim>\<open>finally\<close> clause of \<^verbatim>\<open>temporary_assignment\<close> runs on both outcomes.
\<close>

definition temporary_assignment ::
  "py_object \<Rightarrow> string \<Rightarrow> pyval \<Rightarrow> (py_object \<Rightarrow> py_object \<times> (error + 'a))
     \<Rightarrow> py_object \<times> (error + 'a)" where
  "temporary_assignment obj attr value body =
     (let original = (case py_getattr obj attr of None \<Rightarrow> PNone | Some v \<Rightarrow> v);
          obj = py_setattr obj attr value;
          (obj, outcome) = body obj;
          obj = py_setattr obj attr original
      in (obj, outcome))"

text \<open>The condition of \<^verbatim>\<open>_no_cache_fields\<close>.\<close>

definition has_cache_field :: "py_object \<Rightarrow> bool" where
  "has_cache_field obj =
     (''PreTrainedTokenizerBase'' \<in> set (mro_names obj)
      \<and> py_hasattr obj ''cache''
      \<and> (case py_getattr obj ''cache'' of None \<Rightarrow> False | Some c \<Rightarrow> isinstance_dict c))"

text \<open>
  \<^verbatim>\<open>except ImportError: yield\<close>: an \<^verbatim>\<open>ImportError\<close> raised by the body is caught and the
  generator yields a second time, which \<^verbatim>\<open>contextlib\<close> reports as a \<^verbatim>\<open>RuntimeError\<close>;
  every other outcome passes through.
\<close>

fun second_yield :: "error + 'a \<Rightarrow> error + 'a" where
  "second_yield (Inl (ImportError m)) = Inl (RuntimeError ''generator didn't stop after throw()'')"
| "second_yield outcome = outcome"

definition no_cache_fields ::
  "py_object \<Rightarrow> (py_object \<Rightarrow> py_object \<times> (error + 'a)) \<Rightarrow> py_object \<times> (error + 'a)" where
  "no_cache_fields obj body =
     (let (obj, outcome) =
            (if has_cache_field obj
             then temporary_assignment obj ''cache'' (PDict []) body
             else body obj)
      in (obj, second_yield outcome))"

text \<open>
  \<^verbatim>\<open>dumps(obj)\<close>. The pickler \<^verbatim>\<open>dump(obj, file)\<close> is a parameter: a function from the
  object to the bytes written or the exception raised, which reads the object only.
\<close>

definition dumps :: "(py_object \<Rightarrow> error + string) \<Rightarrow> py_object \<Rightarrow> py_object \<times> (error + string)" where
  "dumps dump obj = no_cache_fields obj (\<lambda>obj. (obj, dump obj))"

lemma map_of_dict_setitem:
  "map_of (dict_setitem d k v) = (map_of d)(k \<mapsto> v)"
  by (induction d) (auto simp: fun_eq_iff)

lemma getattr_setattr:
  "py_getattr (py_setattr obj a v) b = (if b = a then Some v else py_getattr obj b)"
  by (auto simp: py_getattr_def py_setattr_def map_of_dict_setitem split: option.splits)

lemma dict_setitem_restore:
  "map_of d k = Some v \<Longrightarrow> dict_setitem (dict_setitem d k w) k v = d"
  by (induction d) (auto split: if_splits)

text \<open>
  Claim C8. For an object with the class name \<^verbatim>\<open>PreTrainedTokenizerBase\<close> in its MRO and
  a dict-valued attribute \<^verbatim>\<open>cache\<close>, the pickler runs on the object with \<^verbatim>\<open>cache\<close> set
  to the empty dict, and after \<^verbatim>\<open>dumps\<close>, whether it returned or raised, \<^verbatim>\<open>obj.cache\<close> is
  the original value, every other attribute is as before, and an object that had
  \<^verbatim>\<open>cache\<close> as an instance attribute is the same object state as before. Any other object
  is unchanged and pickled as it is.
\<close>

theorem dumps_restores_cache:
  "(has_cache_field obj \<longrightarrow>
      py_getattr (py_setattr obj ''cache'' (PDict [])) ''cache'' = Some (PDict [])
    \<and> snd (dumps dump obj) = second_yield (dump (py_setattr obj ''cache'' (PDict [])))
    \<and> py_getattr (fst (dumps dump obj)) ''cache'' = py_getattr obj ''cache''
    \<and> (\<forall>attr. attr \<noteq> ''cache'' \<longrightarrow>
          py_getattr (fst (dumps dump obj)) attr = py_getattr obj attr
          \<and> map_of (inst_attrs (fst (dumps dump obj))) attr = map_of (inst_attrs obj) attr)
    \<and> mro_names (fst (dumps dump obj)) = mro_names obj
    \<and> class_attrs (fst (dumps dump obj)) = class_attrs obj
    \<and> (''cache'' \<in> fst ` set (inst_attrs obj) \<longrightarrow> fst (dumps dump obj) = obj))
   \<and> (\<not> has_cache_field obj \<longrightarrow>
      fst (dumps dump obj) = obj \<and> snd (dumps dump obj) = second_yield (dump obj))"
proof (intro conjI impI allI)
  assume "\<not> has_cache_field obj"
  then show "fst (dumps dump obj) = obj" "snd (dumps dump obj) = second_yield (dump obj)"
    by (simp_all add: dumps_def no_cache_fields_def)
next
  assume g: "has_cache_field obj"
  then obtain c where c: "py_getattr obj ''cache'' = Some c"
    by (auto simp: has_cache_field_def py_hasattr_def)
  have d: "dumps dump obj =
        (py_setattr (py_setattr obj ''cache'' (PDict [])) ''cache'' c,
         second_yield (dump (py_setattr obj ''cache'' (PDict []))))"
    using g c by (simp add: dumps_def no_cache_fields_def temporary_assignment_def Let_def)
  show "py_getattr (py_setattr obj ''cache'' (PDict [])) ''cache'' = Some (PDict [])"
    by (simp add: getattr_setattr)
  show "snd (dumps dump obj) = second_yield (dump (py_setattr obj ''cache'' (PDict [])))"
    by (simp add: d)
  show "py_getattr (fst (dumps dump obj)) ''cache'' = py_getattr obj ''cache''"
    by (simp add: d c getattr_setattr)
  show "mro_names (fst (dumps dump obj)) = mro_names obj"
    by (simp add: d py_setattr_def)
  show "class_attrs (fst (dumps dump obj)) = class_attrs obj"
    by (simp add: d py_setattr_def)
  show "py_getattr (fst (dumps dump obj)) attr = py_getattr obj attr" if "attr \<noteq> ''cache''" for attr
    using that by (simp add: d getattr_setattr)
  show "map_of (inst_attrs (fst (dumps dump obj))) attr = map_of (inst_attrs obj) attr"
    if "attr \<noteq> ''cache''" for attr
    using that by (simp add: d py_setattr_def map_of_dict_setitem)
  show "fst (dumps dump obj) = obj" if "''cache'' \<in> fst ` set (inst_attrs obj)"
  proof -
    from that obtain v where v: "map_of (inst_attrs obj) ''cache'' = Some v"
      by (metis domD dom_map_of_conv_image_fst)
    then have "c = v" using c by (simp add: py_getattr_def)
    then show ?thesis using v by (simp add: d py_setattr_def dict_setitem_restore)
  qed
qed


theorem dumps_restores_cache_witness:
  "has_cache_field
     \<lparr>mro_names = [''BertTokenizer'', ''PreTrainedTokenizerBase'', ''object''],
      class_attrs = [],
      inst_attrs = [(''cache'', PDict [(PStr ''hello'', PInt 7)]), (''name'', PStr ''bert'')]\<rparr>
   \<and> dumps (\<lambda>obj. if py_getattr obj ''cache'' = Some (PDict [])
                    then Inr ''clean'' else Inl (PicklingError ''cache''))
       \<lparr>mro_names = [''BertTokenizer'', ''PreTrainedTokenizerBase'', ''object''],
        class_attrs = [],
        inst_attrs = [(''cache'', PDict [(PStr ''hello'', PInt 7)]), (''name'', PStr ''bert'')]\<rparr>
     = (\<lparr>mro_names = [''BertTokenizer'', ''PreTrainedTokenizerBase'', ''object''],
         class_attrs = [],
         inst_attrs = [(''cache'', PDict [(PStr ''hello'', PInt 7)]), (''name'', PStr ''bert'')]\<rparr>,
        Inr ''clean'')"
proof -
  let ?obj = "\<lparr>mro_names = [''BertTokenizer'', ''PreTrainedTokenizerBase'', ''object''],
      class_attrs = [],
      inst_attrs = [(''cache'', PDict [(PStr ''hello'', PInt 7)]), (''name'', PStr ''bert'')]\<rparr>"
  let ?dump = "\<lambda>obj. if py_getattr obj ''cache'' = Some (PDict [])
                    then Inr ''clean'' else Inl (PicklingError ''cache'')"
  have h: "has_cache_field ?obj"
    by (simp add: has_cache_field_def py_hasattr_def py_getattr_def)
  have i: "''cache'' \<in> fst ` set (inst_attrs ?obj)" by simp
  from dumps_restores_cache [of ?obj ?dump] h i
  have "fst (dumps ?dump ?obj) = ?obj"
    and "snd (dumps ?dump ?obj) = second_yield (?dump (py_setattr ?obj ''cache'' (PDict [])))"
    by blast+
  then have "dumps ?dump ?obj = (?obj, Inr ''clean'')"
    by (simp add: prod_eq_iff getattr_setattr)
  with h show ?thesis by blast
qed

section \<open>Serialising code objects and functions\<close>

text \<open>
  The encoders registered for \<^verbatim>\<open>CodeType\<close> and \<^verbatim>\<open>FunctionType\<close> hand the pickler a
  reduction: a constructor and the tuple of its arguments, which the pickler writes one
  after the other. The model's result is that reduction, as a tree; the bytes are what
  the pickler writes for it. A code object is the record of its \<^verbatim>\<open>co_\<close> fields; its
  constants are values or nested code objects, which the pickler hands to the same
  encoder.
\<close>

datatype code =
  Code (co_argcount: int) (co_posonlyargcount: "int option") (co_kwonlyargcount: int)
       (co_nlocals: int) (co_stacksize: int) (co_flags: int) (co_code: string)
       (co_consts: "const list") (co_names: "string list") (co_varnames: "string list")
       (co_filename: string) (co_name: string) (co_firstlineno: int) (co_lnotab: string)
       (co_freevars: "string list") (co_cellvars: "string list")
and const = ConstValue pyval | ConstCode code

datatype pickled =
    PkValue pyval
  | PkInt int
  | PkStr string
  | PkBytes string
  | PkNames "string list"
  | PkTuple "pickled list"
  | PkDict "(string \<times> pickled) list"
  | PkReduce string "pickled list"

text \<open>\<^verbatim>\<open>str.startswith\<close> and \<^verbatim>\<open>os.path.basename\<close> (POSIX: what follows the last slash).\<close>

definition startswith :: "string \<Rightarrow> string \<Rightarrow> bool" where
  "startswith s prefix = (take (length prefix) s = prefix)"

definition basename :: "string \<Rightarrow> string" where
  "basename p = rev (takeWhile (\<lambda>c. c \<noteq> CHR ''/'') (rev p))"

text \<open>The file name \<^verbatim>\<open>_save_code\<close> writes instead of \<^verbatim>\<open>obj.co_filename\<close>.\<close>

definition canonical_filename :: "code \<Rightarrow> string" where
  "canonical_filename obj =
     (if startswith (co_filename obj) ''<'' \<or> co_name obj = ''<lambda>'' then ''''
      else basename (co_filename obj))"

text \<open>
  \<^verbatim>\<open>_save_code(pickler, obj)\<close>: the arguments of \<^verbatim>\<open>save_reduce(CodeType, args)\<close>, in the
  three layouts of the source (\<^verbatim>\<open>dill._dill.PY3\<close> with and without
  \<^verbatim>\<open>co_posonlyargcount\<close>, and Python 2). The line number written is always 1.
\<close>

lemma co_consts_size: "x \<in> set (co_consts obj) \<Longrightarrow> size x < size obj"
proof (cases obj)
  case (Code a1 a2 a3 a4 a5 a6 a7 cs a9 a10 a11 a12 a13 a14 a15 a16)
  assume "x \<in> set (co_consts obj)"
  with Code have "x \<in> set cs" by simp
  then have "size x < Suc (size_list size cs)" by (induction cs) auto
  with Code show ?thesis by simp
qed

function save_code :: "bool \<Rightarrow> code \<Rightarrow> pickled"
  and save_const :: "bool \<Rightarrow> const \<Rightarrow> pickled" where
  "save_code py3 obj =
     (let co_filename' = canonical_filename obj;
          co_firstlineno' = 1;
          co_consts' = PkTuple (map (save_const py3) (co_consts obj));
          args =
            (if py3 then
               (case co_posonlyargcount obj of
                  Some posonly \<Rightarrow>
                    [PkInt (co_argcount obj), PkInt posonly, PkInt (co_kwonlyargcount obj),
                     PkInt (co_nlocals obj), PkInt (co_stacksize obj), PkInt (co_flags obj),
                     PkBytes (co_code obj), co_consts', PkNames (co_names obj),
                     PkNames (co_varnames obj), PkStr co_filename', PkStr (co_name obj),
                     PkInt co_firstlineno', PkBytes (co_lnotab obj), PkNames (co_freevars obj),
                     PkNames (co_cellvars obj)]
                | None \<Rightarrow>
                    [PkInt (co_argcount obj), PkInt (co_kwonlyargcount obj),
                     PkInt (co_nlocals obj), PkInt (co_stacksize obj), PkInt (co_flags obj),
                     PkBytes (co_code obj), co_consts', PkNames (co_names obj),
                     PkNames (co_varnames obj), PkStr co_filename', PkStr (co_name obj),
                     PkInt co_firstlineno', PkBytes (co_lnotab obj), PkNames (co_freevars obj),
                     PkNames (co_cellvars obj)])
             else
               [PkInt (co_argcount obj), PkInt (co_nlocals obj), PkInt (co_stacksize obj),
                PkInt (co_flags obj), PkBytes (co_code obj), co_consts', PkNames (co_names obj),
                PkNames (co_varnames obj), PkStr co_filename', PkStr (co_name obj),
                PkInt co_firstlineno', PkBytes (co_lnotab obj), PkNames (co_freevars obj),
                PkNames (co_cellvars obj)])
      in PkReduce ''CodeType'' args)"
| "save_const py3 (ConstValue v) = PkValue v"
| "save_const py3 (ConstCode c) = save_code py3 c"
  by pat_completeness auto
termination
  by (relation "measure (\<lambda>x. case x of Inl (py3, obj) \<Rightarrow> size obj | Inr (py3, c) \<Rightarrow> size c)")
     (auto dest: co_consts_size)

text \<open>
  A function object, and what \<^verbatim>\<open>save_function\<close> asks of dill and of the pickler:
  whether \<^verbatim>\<open>_locate_function\<close> finds the function by name, the dictionary that
  \<^verbatim>\<open>globalvars(obj, recurse=True, builtin=True)\<close> returns (in its own iteration order), the
  \<^verbatim>\<open>id\<close>s of the values of the globals, whether the function is on dill's stack, and
  which dictionary \<^verbatim>\<open>obj.__globals__\<close> is.
\<close>

record py_function =
  f_code :: code
  f_globals :: "(string \<times> pyval) list"
  f_name :: string
  f_qualname :: string
  f_module :: pyval
  f_defaults :: pyval
  f_closure :: pyval
  f_dict :: "(string \<times> pyval) list"
  f_kwdefaults :: pyval
  f_doc :: pyval
  f_annotations :: pyval

record dill_env =
  dill_PY3 :: bool
  locate_function :: bool
  dill_globalvars :: "(string \<times> pyval) list"
  glob_ids :: "nat list"
  in_stack :: bool
  main_modified :: bool
  globals_is_original_main :: bool
  main_dict :: "(string \<times> pyval) list"
  globals_is_module_dict :: bool

text \<open>
  Work left for after the function is created: \<^verbatim>\<open>_setitems(dest, source)\<close> and
  \<^verbatim>\<open>setattr(obj, name, value)\<close>. What \<^verbatim>\<open>_save_with_postproc\<close> is given: the reduction, the
  state and the list of such work.
\<close>

datatype postproc =
    SetItems "(string \<times> pyval) list" "(string \<times> pyval) list"
  | SetAttr string pyval

record saved =
  sv_reduce :: pickled
  sv_state :: "pickled option"
  sv_postproc :: "postproc list"

text \<open>
  \<^verbatim>\<open>{k: globs[k] for k in sorted(globs.keys())}\<close>. Text is ordered as Python orders
  \<^verbatim>\<open>str\<close>: character by character, a prefix first. Every key looked up is a key of
  \<^verbatim>\<open>globs\<close>.
\<close>

definition sorted_dict :: "(string \<times> 'v) list \<Rightarrow> (string \<times> 'v) list" where
  "sorted_dict globs =
     map (\<lambda>k. (k, the (map_of globs k))) (sort (map fst globs))"

definition pk_dict :: "(string \<times> pyval) list \<Rightarrow> pickled" where
  "pk_dict d = PkDict (map (\<lambda>(k, v). (k, PkValue v)) d)"

definition save_global :: "py_function \<Rightarrow> pickled" where
  "save_global obj = PkReduce ''global'' [PkValue (f_module obj), PkStr (f_qualname obj)]"

text \<open>
  \<^verbatim>\<open>save_function\<close> for dill before 0.3.5; the second argument is the pickler's
  \<^verbatim>\<open>_recurse\<close>. The switching of \<^verbatim>\<open>_byref\<close> and \<^verbatim>\<open>_recurse\<close> around \<^verbatim>\<open>save_reduce\<close>,
  which is undone afterwards, and the clearing of the memo are not modelled.
\<close>

definition save_function_old :: "dill_env \<Rightarrow> bool \<Rightarrow> py_function \<Rightarrow> pickled" where
  "save_function_old env recurse obj =
     (if \<not> locate_function env then
        let globs = (if recurse
                     then (if in_stack env then f_globals obj else dill_globalvars env)
                     else f_globals obj);
            globs = sorted_dict globs
        in if dill_PY3 env
           then PkReduce ''_create_function''
                  [save_code (dill_PY3 env) (f_code obj), pk_dict globs, PkStr (f_name obj),
                   PkValue (f_defaults obj), PkValue (f_closure obj), pk_dict (f_dict obj),
                   PkValue (f_kwdefaults obj)]
           else PkReduce ''_create_function''
                  [save_code (dill_PY3 env) (f_code obj), pk_dict globs, PkStr (f_name obj),
                   PkValue (f_defaults obj), PkValue (f_closure obj), pk_dict (f_dict obj)]
      else save_global obj)"

text \<open>\<^verbatim>\<open>save_function\<close> for dill 0.3.5 and later, in the steps of the source.\<close>

fun append_postproc ::
  "(nat \<times> postproc list) list \<Rightarrow> nat list \<Rightarrow> postproc
     \<Rightarrow> ((nat \<times> postproc list) list) option" where
  "append_postproc [] ids entry = None"
| "append_postproc ((stack_element, pending) # rest) ids entry =
     (if stack_element \<in> set ids then Some ((stack_element, pending @ [entry]) # rest)
      else map_option (\<lambda>r. (stack_element, pending) # r) (append_postproc rest ids entry))"

text \<open>The three cases for \<^verbatim>\<open>globs_copy\<close> and \<^verbatim>\<open>globs\<close>; the flag says that \<^verbatim>\<open>globs is not globs_copy\<close>.\<close>

definition choose_globs ::
  "dill_env \<Rightarrow> bool \<Rightarrow> py_function
     \<Rightarrow> (string \<times> pyval) list \<times> (string \<times> pyval) list \<times> bool" where
  "choose_globs env recurse obj =
     (if recurse
      then (dill_globalvars env, [(''__name__'', f_module obj)], True)
      else if main_modified env \<and> globals_is_original_main env
      then (main_dict env, main_dict env, False)
      else if f_module obj \<noteq> PNone \<and> globals_is_module_dict env
      then (f_globals obj, f_globals obj, False)
      else (f_globals obj, [(''__name__'', f_module obj)], True))"

text \<open>
  The \<^verbatim>\<open>for ... else\<close> over \<^verbatim>\<open>_postproc\<close>: the update of the globals is left to the first
  object being pickled that is one of the globals, or else put on \<^verbatim>\<open>postproc_list\<close>.
\<close>

definition register_setitems ::
  "dill_env \<Rightarrow> (nat \<times> postproc list) list \<Rightarrow> (string \<times> pyval) list
     \<Rightarrow> (string \<times> pyval) list \<Rightarrow> bool \<Rightarrow> (nat \<times> postproc list) list \<times> postproc list" where
  "register_setitems env postproc globs globs_copy copied =
     (if copied
      then (case append_postproc postproc (glob_ids env) (SetItems globs globs_copy) of
              Some postproc' \<Rightarrow> (postproc', [])
            | None \<Rightarrow> (postproc, [SetItems globs globs_copy]))
      else (postproc, []))"

definition state_dict_of :: "py_function \<Rightarrow> bool \<Rightarrow> (string \<times> pyval) list" where
  "state_dict_of obj module_differs =
     (if f_doc obj \<noteq> PNone then [(''__doc__'', f_doc obj)] else []) @
     (if f_kwdefaults obj \<noteq> PNone then [(''__kwdefaults__'', f_kwdefaults obj)] else []) @
     (if f_annotations obj \<noteq> PNone then [(''__annotations__'', f_annotations obj)] else []) @
     (if f_qualname obj \<noteq> f_name obj then [(''__qualname__'', PStr (f_qualname obj))] else []) @
     (if module_differs then [(''__module__'', f_module obj)] else [])"

definition py2_postproc :: "py_function \<Rightarrow> bool \<Rightarrow> postproc list" where
  "py2_postproc obj module_differs =
     (if f_doc obj \<noteq> PNone then [SetAttr ''__doc__'' (f_doc obj)] else []) @
     (if module_differs then [SetAttr ''__module__'' (f_module obj)] else []) @
     (if f_dict obj \<noteq> []
      then [SetAttr ''__dict__'' (PDict (map (\<lambda>(k, v). (PStr k, v)) (f_dict obj)))] else [])"

definition save_function_new ::
  "dill_env \<Rightarrow> bool \<Rightarrow> (nat \<times> postproc list) list \<Rightarrow> py_function
     \<Rightarrow> saved \<times> (nat \<times> postproc list) list" where
  "save_function_new env recurse postproc obj =
     (if \<not> locate_function env then
        let (globs_copy, globs, copied) = choose_globs env recurse obj;
            (postproc, postproc_list) = register_setitems env postproc globs globs_copy copied;
            globs = sorted_dict globs;
            module_differs = (map_of globs ''__name__'' \<noteq> Some (f_module obj));
            args = [save_code (dill_PY3 env) (f_code obj), pk_dict globs, PkStr (f_name obj),
                    PkValue (f_defaults obj), PkValue (f_closure obj)]
        in if dill_PY3 env then
             let state_dict = state_dict_of obj module_differs;
                 state = (if state_dict \<noteq> []
                          then PkTuple [pk_dict (f_dict obj), pk_dict state_dict]
                          else pk_dict (f_dict obj))
             in (\<lparr>sv_reduce = PkReduce ''_create_function'' args,
                  sv_state = Some state,
                  sv_postproc = postproc_list\<rparr>, postproc)
           else
             (\<lparr>sv_reduce = PkReduce ''_create_function'' args,
               sv_state = None,
               sv_postproc = postproc_list @ py2_postproc obj module_differs\<rparr>, postproc)
      else (\<lparr>sv_reduce = save_global obj, sv_state = None, sv_postproc = []\<rparr>, postproc))"

subsection \<open>The origin of a function\<close>



declare save_code.simps [simp del]




text \<open>
  An example: the code object of \<^verbatim>\<open>def inner(x): return x * scale\<close> compiled in a given
  file at a given line under a given name, the function made of it, and what dill answers
  when \<^verbatim>\<open>dumps\<close> pickles such a function that cannot be found by name.
\<close>

definition inner_code :: "string \<Rightarrow> string \<Rightarrow> int \<Rightarrow> code" where
  "inner_code filename name firstlineno =
     Code 1 (Some 0) 0 1 2 19 ''|0t0'' [ConstValue PNone] [''scale''] [''x'']
          filename name firstlineno ''0001'' [] []"

definition inner_function :: "code \<Rightarrow> py_function" where
  "inner_function c =
     \<lparr>f_code = c, f_globals = [(''scale'', PInt 2)], f_name = co_name c,
      f_qualname = co_name c, f_module = PStr ''__main__'', f_defaults = PNone,
      f_closure = PNone, f_dict = [], f_kwdefaults = PNone, f_doc = PNone,
      f_annotations = PDict []\<rparr>"

definition dumps_env :: "(string \<times> pyval) list \<Rightarrow> dill_env" where
  "dumps_env captured =
     \<lparr>dill_PY3 = True, locate_function = False, dill_globalvars = captured, glob_ids = [],
      in_stack = False, main_modified = False, globals_is_original_main = False,
      main_dict = [], globals_is_module_dict = False\<rparr>"




subsection \<open>The globals of a function\<close>

lemma sorted_dict_keys: "map fst (sorted_dict d) = sort (map fst d)"
  by (simp add: sorted_dict_def comp_def)

lemma sorted_dict_sorted: "sorted (map fst (sorted_dict d))"
  by (simp add: sorted_dict_keys)

lemma map_of_lookup_all:
  "map_of (map (\<lambda>k. (k, the (map_of d k))) ks) k =
     (if k \<in> set ks then Some (the (map_of d k)) else None)"
  by (induction ks) auto

lemma map_of_sorted_dict: "map_of (sorted_dict d) = map_of d"
proof
  fix k
  show "map_of (sorted_dict d) k = map_of d k"
  proof (cases "map_of d k")
    case None
    then have "k \<notin> fst ` set d" by (simp add: map_of_eq_None_iff)
    then show ?thesis using None
      by (simp add: sorted_dict_def map_of_lookup_all)
  next
    case (Some v)
    then have "k \<in> fst ` set d" by (metis domI dom_map_of_conv_image_fst)
    then show ?thesis using Some by (simp add: sorted_dict_def map_of_lookup_all)
  qed
qed

text \<open>
  The path for dill before 0.3.5 embeds the captured globals with their keys in ascending
  order and their bindings unchanged.
\<close>

lemma save_function_old_globals_sorted:
  assumes "\<not> locate_function env" "\<not> in_stack env"
  shows "\<exists>code rest. save_function_old env True obj =
           PkReduce ''_create_function'' (code # pk_dict (sorted_dict (dill_globalvars env)) # rest)"
    and "sorted (map fst (sorted_dict (dill_globalvars env)))"
    and "map_of (sorted_dict (dill_globalvars env)) = map_of (dill_globalvars env)"
  using assms by (simp_all add: save_function_old_def Let_def sorted_dict_sorted map_of_sorted_dict)

text \<open>
  Claim C7. For dill 0.3.5 and later the sort comes after the update of the globals was
  registered, and it sorts the dictionary that holds \<^verbatim>\<open>__name__\<close> only: the reduction
  embeds \<^verbatim>\<open>{"__name__": module}\<close>, and the captured globals are handed to the
  registered \<^verbatim>\<open>_setitems\<close> call in the order \<^verbatim>\<open>globalvars\<close> returned them, for the
  dictionary that the sort has replaced. So no sorted mapping of the captured globals
  is embedded on this path. For a function with the globals \<^verbatim>\<open>scale\<close> and \<^verbatim>\<open>offset\<close>,
  what \<^verbatim>\<open>save_function\<close> hands to the pickler differs for the two orders of that
  dictionary; under the code for dill before 0.3.5 the two serialisations are equal.
\<close>

theorem save_function_new_globals_unsorted:
  "sv_reduce (fst (save_function_new (dumps_env [(''scale'', PInt 2), (''offset'', PInt 1)]) True []
       (inner_function (inner_code ''<stdin>'' ''inner'' 1))))
     = PkReduce ''_create_function''
         [save_code True (inner_code ''<stdin>'' ''inner'' 1),
          PkDict [(''__name__'', PkValue (PStr ''__main__''))],
          PkStr ''inner'', PkValue PNone, PkValue PNone]
   \<and> sv_postproc (fst (save_function_new (dumps_env [(''scale'', PInt 2), (''offset'', PInt 1)]) True []
       (inner_function (inner_code ''<stdin>'' ''inner'' 1))))
     = [SetItems [(''__name__'', PStr ''__main__'')] [(''scale'', PInt 2), (''offset'', PInt 1)]]
   \<and> save_function_new (dumps_env [(''scale'', PInt 2), (''offset'', PInt 1)]) True []
       (inner_function (inner_code ''<stdin>'' ''inner'' 1))
     \<noteq> save_function_new (dumps_env [(''offset'', PInt 1), (''scale'', PInt 2)]) True []
       (inner_function (inner_code ''<stdin>'' ''inner'' 1))
   \<and> save_function_old (dumps_env [(''scale'', PInt 2), (''offset'', PInt 1)]) True
       (inner_function (inner_code ''<stdin>'' ''inner'' 1))
     = save_function_old (dumps_env [(''offset'', PInt 1), (''scale'', PInt 2)]) True
       (inner_function (inner_code ''<stdin>'' ''inner'' 1))"
  by code_simp

section \<open>Memoisation in the pickler\<close>

text \<open>
  Modelled from the spec: the loop of the stock pickler that \<^verbatim>\<open>Pickler\<close> inherits
  (\<^verbatim>\<open>save\<close>, the memo and the encoders of the built-in types) is library code, not part of
  the repository. The spec says of it that objects identical by reference are memoized to
  avoid encoding them again: \<^verbatim>\<open>save\<close> first looks the object's \<^verbatim>\<open>id\<close> up in the memo and
  writes a reference to the entry if there is one; otherwise the encoder of the object's
  type writes the object and calls \<^verbatim>\<open>self.memoize(obj)\<close>, which the class of the repository
  overrides. Integers are never memoized, the empty tuple is not, a list is memoized before
  its items and a tuple after them. An object is its \<^verbatim>\<open>id\<close> and its content.
\<close>

datatype pobj =
    OInt int
  | OStr nat string
  | OBytes nat string
  | OList nat "pobj list"
  | OTuple nat "pobj list"

datatype opcode =
    BinInt int
  | BinUnicode string
  | BinBytes string
  | EmptyList
  | EmptyTuple
  | Mark
  | Append
  | Appends
  | Tuple
  | Memoize
  | BinGet nat
  | Proto nat
  | Stop

record pickler =
  written :: "opcode list"
  memo :: "(nat \<times> nat) list"

fun type_is_str :: "pobj \<Rightarrow> bool" where
  "type_is_str (OStr i s) = True"
| "type_is_str obj = False"

fun py_id :: "pobj \<Rightarrow> nat" where
  "py_id (OInt n) = 0"
| "py_id (OStr i s) = i"
| "py_id (OBytes i s) = i"
| "py_id (OList i xs) = i"
| "py_id (OTuple i xs) = i"

definition pickler_write :: "pickler \<Rightarrow> opcode list \<Rightarrow> pickler" where
  "pickler_write self ops = self\<lparr>written := written self @ ops\<rparr>"

text \<open>
  Modelled from the spec: \<^verbatim>\<open>dill.Pickler.memoize\<close>, the inherited method, gives the object
  the next index of the memo and writes the opcode that stores it.
\<close>

definition stock_memoize :: "pickler \<Rightarrow> pobj \<Rightarrow> pickler" where
  "stock_memoize self obj =
     (let idx = length (memo self);
          self = pickler_write self [Memoize]
      in self\<lparr>memo := memo self @ [(py_id obj, idx)]\<rparr>)"

text \<open>\<^verbatim>\<open>Pickler.memoize\<close> of the repository: \<^verbatim>\<open>if type(obj) != str\<close>.\<close>

definition Pickler_memoize :: "pickler \<Rightarrow> pobj \<Rightarrow> pickler" where
  "Pickler_memoize self obj = (if \<not> type_is_str obj then stock_memoize self obj else self)"

text \<open>
  Modelled from the spec: \<^verbatim>\<open>save\<close>, with the \<^verbatim>\<open>memoize\<close> method of the pickler's class as
  its first argument.
\<close>

fun save :: "(pickler \<Rightarrow> pobj \<Rightarrow> pickler) \<Rightarrow> pickler \<Rightarrow> pobj \<Rightarrow> pickler"
  and save_items :: "(pickler \<Rightarrow> pobj \<Rightarrow> pickler) \<Rightarrow> pickler \<Rightarrow> pobj list \<Rightarrow> pickler" where
  "save memoize self (OInt n) = pickler_write self [BinInt n]"
| "save memoize self (OStr i s) =
     (case map_of (memo self) i of
        Some idx \<Rightarrow> pickler_write self [BinGet idx]
      | None \<Rightarrow> memoize (pickler_write self [BinUnicode s]) (OStr i s))"
| "save memoize self (OBytes i s) =
     (case map_of (memo self) i of
        Some idx \<Rightarrow> pickler_write self [BinGet idx]
      | None \<Rightarrow> memoize (pickler_write self [BinBytes s]) (OBytes i s))"
| "save memoize self (OList i xs) =
     (case map_of (memo self) i of
        Some idx \<Rightarrow> pickler_write self [BinGet idx]
      | None \<Rightarrow>
          let self = memoize (pickler_write self [EmptyList]) (OList i xs)
          in if xs = [] then self
             else if length xs = 1 then pickler_write (save_items memoize self xs) [Append]
             else pickler_write (save_items memoize (pickler_write self [Mark]) xs) [Appends])"
| "save memoize self (OTuple i xs) =
     (case map_of (memo self) i of
        Some idx \<Rightarrow> pickler_write self [BinGet idx]
      | None \<Rightarrow>
          if xs = [] then pickler_write self [EmptyTuple]
          else memoize (pickler_write (save_items memoize (pickler_write self [Mark]) xs) [Tuple]) (OTuple i xs))"
| "save_items memoize self [] = self"
| "save_items memoize self (x # xs) = save_items memoize (save memoize self x) xs"

definition pickle_dumps :: "(pickler \<Rightarrow> pobj \<Rightarrow> pickler) \<Rightarrow> pobj \<Rightarrow> opcode list" where
  "pickle_dumps memoize obj =
     written (pickler_write (save memoize \<lparr>written = [Proto 4], memo = []\<rparr> obj) [Stop])"

text \<open>
  Two objects that differ in the identities of their strings only, and the identities that
  occur in an object: those of its strings and those of its other parts. Distinct objects
  have distinct identities, so no string has the identity of a part that is not a string.
\<close>

fun same_but_str_ids :: "pobj \<Rightarrow> pobj \<Rightarrow> bool" where
  "same_but_str_ids (OInt m) (OInt n) = (m = n)"
| "same_but_str_ids (OStr i s) (OStr j t) = (s = t)"
| "same_but_str_ids (OBytes i s) (OBytes j t) = (i = j \<and> s = t)"
| "same_but_str_ids (OList i xs) (OList j ys) = (i = j \<and> list_all2 same_but_str_ids xs ys)"
| "same_but_str_ids (OTuple i xs) (OTuple j ys) = (i = j \<and> list_all2 same_but_str_ids xs ys)"
| "same_but_str_ids a b = False"

fun str_ids :: "pobj \<Rightarrow> nat set" where
  "str_ids (OInt n) = {}"
| "str_ids (OStr i s) = {i}"
| "str_ids (OBytes i s) = {}"
| "str_ids (OList i xs) = \<Union> (set (map str_ids xs))"
| "str_ids (OTuple i xs) = \<Union> (set (map str_ids xs))"

fun other_ids :: "pobj \<Rightarrow> nat set" where
  "other_ids (OInt n) = {}"
| "other_ids (OStr i s) = {}"
| "other_ids (OBytes i s) = {i}"
| "other_ids (OList i xs) = insert i (\<Union> (set (map other_ids xs)))"
| "other_ids (OTuple i xs) = insert i (\<Union> (set (map other_ids xs)))"

lemma memo_write [simp]: "memo (pickler_write st ops) = memo st"
  by (simp add: pickler_write_def)

lemma memo_stock_memoize [simp]:
  "memo (stock_memoize st obj) = memo st @ [(py_id obj, length (memo st))]"
  by (simp add: stock_memoize_def Let_def)

lemma memo_keys_aux:
  "m = Pickler_memoize \<Longrightarrow>
     fst ` set (memo (save m st a)) \<subseteq> fst ` set (memo st) \<union> other_ids a"
  and memo_keys_items_aux:
  "m = Pickler_memoize \<Longrightarrow>
     fst ` set (memo (save_items m st xs)) \<subseteq>
       fst ` set (memo st) \<union> \<Union> (set (map other_ids xs))"
proof (induction m st a and m st xs rule: save_save_items.induct)
  case (1 m self n)
  then show ?case by simp
next
  case (2 m self i s)
  then show ?case by (simp add: Pickler_memoize_def split: option.splits)
next
  case (3 m self i s)
  then show ?case by (auto simp: Pickler_memoize_def split: option.splits)
next
  case (4 m self i xs)
  show ?case
  proof (cases "map_of (memo self) i")
    case None
    let ?st = "m (pickler_write self [EmptyList]) (OList i xs)"
    have k: "fst ` set (memo ?st) \<subseteq> insert i (fst ` set (memo self))"
      using "4.prems" by (auto simp: Pickler_memoize_def)
    have a: "fst ` set (memo (save_items m ?st xs)) \<subseteq>
             fst ` set (memo ?st) \<union> \<Union> (set (map other_ids xs))" if l: "length xs = 1"
    proof -
      from l have ne: "xs \<noteq> []" by auto
      show ?thesis by (rule "4.IH"(1) [OF None refl ne l "4.prems"])
    qed
    have b: "fst ` set (memo (save_items m (pickler_write ?st [Mark]) xs)) \<subseteq>
             fst ` set (memo ?st) \<union> \<Union> (set (map other_ids xs))"
      if ne: "xs \<noteq> []" and l: "length xs \<noteq> 1"
      using "4.IH"(2) [OF None refl ne l "4.prems"] by simp
    show ?thesis
    proof (cases "xs = []")
      case True
      then have "save m self (OList i xs) = ?st" using None by (simp add: Let_def)
      then show ?thesis using k by auto
    next
      case False
      show ?thesis
      proof (cases "length xs = 1")
        case True
        have r: "memo (save m self (OList i xs)) = memo (save_items m ?st xs)"
          using None False True by (simp add: Let_def)
        from a [OF True] k
        have "fst ` set (memo (save_items m ?st xs)) \<subseteq>
              insert i (fst ` set (memo self)) \<union> \<Union> (set (map other_ids xs))"
          by blast
        then show ?thesis unfolding r by auto
      next
        case l: False
        have r: "memo (save m self (OList i xs)) =
                 memo (save_items m (pickler_write ?st [Mark]) xs)"
          using None False l by (simp add: Let_def)
        from b [OF False l] k
        have "fst ` set (memo (save_items m (pickler_write ?st [Mark]) xs)) \<subseteq>
              insert i (fst ` set (memo self)) \<union> \<Union> (set (map other_ids xs))"
          by blast
        then show ?thesis unfolding r by auto
      qed
    qed
  qed auto
next
  case (5 m self i xs)
  show ?case
  proof (cases "map_of (memo self) i")
    case None
    have b: "fst ` set (memo (save_items m (pickler_write self [Mark]) xs)) \<subseteq>
             fst ` set (memo self) \<union> \<Union> (set (map other_ids xs))" if ne: "xs \<noteq> []"
      using "5.IH" [OF None ne "5.prems"] by simp
    show ?thesis
    proof (cases "xs = []")
      case True
      then show ?thesis using None by auto
    next
      case False
      have r: "memo (save m self (OTuple i xs)) =
               memo (save_items m (pickler_write self [Mark]) xs) @
                 [(i, length (memo (save_items m (pickler_write self [Mark]) xs)))]"
        using None False "5.prems" by (simp add: Pickler_memoize_def)
      from b [OF False] show ?thesis unfolding r by auto
    qed
  qed auto
next
  case (6 m self)
  then show ?case by simp
next
  case (7 m self x xs)
  have "fst ` set (memo (save m self x)) \<subseteq> fst ` set (memo self) \<union> other_ids x"
    by (rule "7.IH"(1) [OF "7.prems"])
  moreover have "fst ` set (memo (save_items m (save m self x) xs)) \<subseteq>
        fst ` set (memo (save m self x)) \<union> \<Union> (set (map other_ids xs))"
    by (rule "7.IH"(2) [OF "7.prems"])
  ultimately have "fst ` set (memo (save_items m (save m self x) xs)) \<subseteq>
        fst ` set (memo self) \<union> (other_ids x \<union> \<Union> (set (map other_ids xs)))"
    by blast
  then show ?case by simp
qed

lemmas memo_keys = memo_keys_aux [OF refl] memo_keys_items_aux [OF refl]

lemma map_of_not_key: "k \<notin> fst ` set xs \<Longrightarrow> map_of xs k = None"
  by (simp add: map_of_eq_None_iff)

lemma save_items_related:
  assumes "list_all2 same_but_str_ids xs ys"
    and "\<And>x y st. x \<in> set xs \<Longrightarrow> y \<in> set ys \<Longrightarrow> same_but_str_ids x y \<Longrightarrow>
           fst ` set (memo st) \<subseteq> K \<Longrightarrow>
           save Pickler_memoize st x = save Pickler_memoize st y"
    and "\<And>x. x \<in> set xs \<Longrightarrow> other_ids x \<subseteq> K"
    and "fst ` set (memo st) \<subseteq> K"
  shows "save_items Pickler_memoize st xs = save_items Pickler_memoize st ys"
  using assms
proof (induction arbitrary: st rule: list_all2_induct)
  case Nil
  then show ?case by simp
next
  case (Cons x xs y ys)
  have e: "save Pickler_memoize st x = save Pickler_memoize st y"
    using Cons.prems(1) [of x y st] Cons.hyps(1) Cons.prems(3) by simp
  have "fst ` set (memo (save Pickler_memoize st x)) \<subseteq> fst ` set (memo st) \<union> other_ids x"
    by (rule memo_keys(1))
  then have k: "fst ` set (memo (save Pickler_memoize st x)) \<subseteq> K"
    using Cons.prems(2) [of x] Cons.prems(3) by auto
  have "save_items Pickler_memoize (save Pickler_memoize st x) xs =
        save_items Pickler_memoize (save Pickler_memoize st x) ys"
    using Cons.prems(1,2) k by (intro Cons.IH) auto
  then show ?case using e by simp
qed

lemma Pickler_memoize_simps:
  "Pickler_memoize st (OStr i s) = st"
  "Pickler_memoize st (OBytes i s) = stock_memoize st (OBytes i s)"
  "Pickler_memoize st (OList i xs) = stock_memoize st (OList i xs)"
  "Pickler_memoize st (OTuple i xs) = stock_memoize st (OTuple i xs)"
  by (simp_all add: Pickler_memoize_def)

lemma stock_memoize_id: "py_id a = py_id b \<Longrightarrow> stock_memoize st a = stock_memoize st b"
  by (simp add: stock_memoize_def)

lemma save_related:
  "same_but_str_ids a b \<Longrightarrow> str_ids a \<inter> K = {} \<Longrightarrow> str_ids b \<inter> K = {} \<Longrightarrow>
   other_ids a \<subseteq> K \<Longrightarrow> fst ` set (memo st) \<subseteq> K \<Longrightarrow>
   save Pickler_memoize st a = save Pickler_memoize st b"
proof (induction a b arbitrary: st rule: same_but_str_ids.induct)
  case (2 i s j t)
  then have "map_of (memo st) i = None" "map_of (memo st) j = None"
    by (auto intro!: map_of_not_key)
  then show ?case using "2.prems" by (simp add: Pickler_memoize_simps)
next
  case (3 i s j t)
  then show ?case by (simp add: Pickler_memoize_simps stock_memoize_def)
next
  case (4 i xs j ys)
  then have ij: "j = i" and l: "list_all2 same_but_str_ids xs ys" by simp_all
  have len: "length ys = length xs" using l by (simp add: list_all2_lengthD)
  have items: "save_items Pickler_memoize st' xs = save_items Pickler_memoize st' ys"
    if "fst ` set (memo st') \<subseteq> K" for st'
    using l
  proof (rule save_items_related)
    fix x y and st'' :: pickler assume m: "x \<in> set xs" "y \<in> set ys" "same_but_str_ids x y"
      "fst ` set (memo st'') \<subseteq> K"
    have "str_ids x \<inter> K = {}" "str_ids y \<inter> K = {}" "other_ids x \<subseteq> K"
      using "4.prems" m(1,2) by auto
    then show "save Pickler_memoize st'' x = save Pickler_memoize st'' y"
      using "4.IH" [OF m(1,2,3)] m(4) by simp
  next
    fix x assume "x \<in> set xs"
    then show "other_ids x \<subseteq> K" using "4.prems" by auto
  next
    show "fst ` set (memo st') \<subseteq> K" by (rule that)
  qed
  have i: "i \<in> K" using "4.prems" by simp
  let ?st = "Pickler_memoize (pickler_write st [EmptyList]) (OList i xs)"
  have same: "Pickler_memoize (pickler_write st [EmptyList]) (OList i ys) = ?st"
    by (simp add: Pickler_memoize_simps stock_memoize_def)
  have k: "fst ` set (memo ?st) \<subseteq> K" "fst ` set (memo (pickler_write ?st [Mark])) \<subseteq> K"
    using "4.prems"(5) i by (auto simp: Pickler_memoize_simps)
  show ?case
    using items [OF k(1)] items [OF k(2)] len l
    by (auto simp: ij same Let_def split: option.splits)
next
  case (5 i xs j ys)
  then have ij: "j = i" and l: "list_all2 same_but_str_ids xs ys" by simp_all
  have len: "length ys = length xs" using l by (simp add: list_all2_lengthD)
  have items: "save_items Pickler_memoize st' xs = save_items Pickler_memoize st' ys"
    if "fst ` set (memo st') \<subseteq> K" for st'
    using l
  proof (rule save_items_related)
    fix x y and st'' :: pickler assume m: "x \<in> set xs" "y \<in> set ys" "same_but_str_ids x y"
      "fst ` set (memo st'') \<subseteq> K"
    have "str_ids x \<inter> K = {}" "str_ids y \<inter> K = {}" "other_ids x \<subseteq> K"
      using "5.prems" m(1,2) by auto
    then show "save Pickler_memoize st'' x = save Pickler_memoize st'' y"
      using "5.IH" [OF m(1,2,3)] m(4) by simp
  next
    fix x assume "x \<in> set xs"
    then show "other_ids x \<subseteq> K" using "5.prems" by auto
  next
    show "fst ` set (memo st') \<subseteq> K" by (rule that)
  qed
  have k: "fst ` set (memo (pickler_write st [Mark])) \<subseteq> K"
    using "5.prems"(5) by simp
  have e: "(xs = []) = (ys = [])" using len by auto
  have same: "stock_memoize st' (OTuple i ys) = stock_memoize st' (OTuple i xs)" for st'
    by (rule stock_memoize_id) simp
  show ?case
    using items [OF k] e
    by (auto simp: ij Pickler_memoize_simps same split: option.splits)
qed simp_all

lemma pickle_dumps_related:
  assumes "same_but_str_ids a b"
    and "str_ids a \<inter> other_ids a = {}" and "str_ids b \<inter> other_ids b = {}"
  shows "pickle_dumps Pickler_memoize a = pickle_dumps Pickler_memoize b"
proof -
  have o: "other_ids b = other_ids a"
    using assms(1)
  proof (induction a b rule: same_but_str_ids.induct)
    case (4 i xs j ys)
    then have l: "list_all2 same_but_str_ids xs ys" and ij: "i = j" by simp_all
    have "map other_ids ys = map other_ids xs"
      using l "4.IH" ij
      by (induction rule: list_all2_induct) auto
    then show ?case using ij by simp
  next
    case (5 i xs j ys)
    then have l: "list_all2 same_but_str_ids xs ys" and ij: "i = j" by simp_all
    have "map other_ids ys = map other_ids xs"
      using l "5.IH" ij
      by (induction rule: list_all2_induct) auto
    then show ?case using ij by simp
  qed simp_all
  have "save Pickler_memoize \<lparr>written = [Proto 4], memo = []\<rparr> a =
        save Pickler_memoize \<lparr>written = [Proto 4], memo = []\<rparr> b"
    using assms o by (intro save_related [where K = "other_ids a"]) simp_all
  then show ?thesis by (simp add: pickle_dumps_def)
qed

text \<open>
  With the inherited \<^verbatim>\<open>memoize\<close> the identity of a string is visible in the output: the
  second occurrence of the same string is written as a reference.
\<close>

lemma stock_memoize_pickles_str_identity:
  "pickle_dumps stock_memoize (OList 1 [OStr 2 ''ab'', OStr 2 ''ab''])
     \<noteq> pickle_dumps stock_memoize (OList 1 [OStr 2 ''ab'', OStr 3 ''ab''])"
  by code_simp

text \<open>
  Claim C6. With \<^verbatim>\<open>Pickler.memoize\<close>, two objects that differ only in the identities of
  their strings are pickled to the same output. In particular two strings with equal
  content are, and so are a list holding one string object twice and a list holding two
  equal string objects. \<^verbatim>\<open>Pickler.memoize\<close> leaves the pickler, and so its memo, unchanged
  for a string.
\<close>

theorem str_identity_not_pickled:
  "(same_but_str_ids a b \<and> str_ids a \<inter> other_ids a = {} \<and> str_ids b \<inter> other_ids b = {} \<longrightarrow>
      pickle_dumps Pickler_memoize a = pickle_dumps Pickler_memoize b)
   \<and> pickle_dumps Pickler_memoize (OStr i s) = pickle_dumps Pickler_memoize (OStr j s)
   \<and> (i \<noteq> l \<and> j \<noteq> l \<longrightarrow>
        pickle_dumps Pickler_memoize (OList l [OStr i s, OStr i s])
          = pickle_dumps Pickler_memoize (OList l [OStr i s, OStr j s]))
   \<and> Pickler_memoize st (OStr i s) = st"
proof (intro conjI impI)
  assume "same_but_str_ids a b \<and> str_ids a \<inter> other_ids a = {} \<and> str_ids b \<inter> other_ids b = {}"
  then show "pickle_dumps Pickler_memoize a = pickle_dumps Pickler_memoize b"
    by (intro pickle_dumps_related) simp_all
next
  show "pickle_dumps Pickler_memoize (OStr i s) = pickle_dumps Pickler_memoize (OStr j s)"
    by (intro pickle_dumps_related) simp_all
next
  assume "i \<noteq> l \<and> j \<noteq> l"
  then show "pickle_dumps Pickler_memoize (OList l [OStr i s, OStr i s])
          = pickle_dumps Pickler_memoize (OList l [OStr i s, OStr j s])"
    by (intro pickle_dumps_related) simp_all
next
  show "Pickler_memoize st (OStr i s) = st" by (simp add: Pickler_memoize_def)
qed

theorem str_identity_not_pickled_witness:
  "same_but_str_ids (OList 1 [OStr 2 ''ab'', OStr 2 ''ab'', OBytes 3 ''x''])
                    (OList 1 [OStr 2 ''ab'', OStr 5 ''ab'', OBytes 3 ''x''])
   \<and> str_ids (OList 1 [OStr 2 ''ab'', OStr 2 ''ab'', OBytes 3 ''x''])
       \<inter> other_ids (OList 1 [OStr 2 ''ab'', OStr 2 ''ab'', OBytes 3 ''x'']) = {}
   \<and> str_ids (OList 1 [OStr 2 ''ab'', OStr 5 ''ab'', OBytes 3 ''x''])
       \<inter> other_ids (OList 1 [OStr 2 ''ab'', OStr 5 ''ab'', OBytes 3 ''x'']) = {}
   \<and> pickle_dumps Pickler_memoize (OList 1 [OStr 2 ''ab'', OStr 5 ''ab'', OBytes 3 ''x''])
       = [Proto 4, EmptyList, Memoize, Mark, BinUnicode ''ab'', BinUnicode ''ab'',
          BinBytes ''x'', Memoize, Appends, Stop]
   \<and> pickle_dumps Pickler_memoize (OList 1 [OStr 2 ''ab'', OStr 2 ''ab'', OBytes 3 ''x''])
       = pickle_dumps Pickler_memoize (OList 1 [OStr 2 ''ab'', OStr 5 ''ab'', OBytes 3 ''x''])"
proof -
  let ?a = "OList 1 [OStr 2 ''ab'', OStr 2 ''ab'', OBytes 3 ''x'']"
  let ?b = "OList 1 [OStr 2 ''ab'', OStr 5 ''ab'', OBytes 3 ''x'']"
  have h1: "same_but_str_ids ?a ?b" by simp
  have h2: "str_ids ?a \<inter> other_ids ?a = {}" by simp
  have h3: "str_ids ?b \<inter> other_ids ?b = {}" by simp
  have ev: "pickle_dumps Pickler_memoize ?b
       = [Proto 4, EmptyList, Memoize, Mark, BinUnicode ''ab'', BinUnicode ''ab'',
          BinBytes ''x'', Memoize, Appends, Stop]"
    by code_simp
  have "pickle_dumps Pickler_memoize ?a = pickle_dumps Pickler_memoize ?b"
    using str_identity_not_pickled [of ?a ?b] h1 h2 h3 by blast
  with h1 h2 h3 ev show ?thesis by blast
qed

end
